theory Spec2Isabelle
  imports Main "HOL-Library.Word"
begin

section \<open>The netstore file server: data model\<close>

text \<open>
  A shallow embedding of \<^verbatim>\<open>server.cpp\<close>. The UDP dispatcher and its handlers are
  functions from the server state and the state of the shared folder to an outcome: the
  handler returned to the dispatcher loop, the process called \<^verbatim>\<open>exit\<close>, or an
  exception left the handler. Every outcome carries the state, the shared folder and the
  messages handed to the helpers of \<^verbatim>\<open>connection.h\<close> up to that point.
\<close>

type_synonym u64 = "64 word"

text \<open>A path is the string \<^verbatim>\<open>fs::path\<close> wraps.\<close>

type_synonym path = string

text \<open>
  The shared folder as the handlers see it: the regular files, each with what
  \<^verbatim>\<open>file_size\<close> returns (\<^verbatim>\<open>uintmax_t\<close>). A path that is absent is no regular file:
  \<^verbatim>\<open>fs::is_regular_file\<close> is false and \<^verbatim>\<open>file_size\<close> throws.
\<close>

type_synonym filesystem = "path \<rightharpoonup> u64"

datatype error = Runtime_error string | Invalid_argument string | Filesystem_error string

datatype sockaddr_in = Sockaddr_in (sin_addr: nat) (sin_port: nat)

record server_options =
  MCAST_ADDR :: string
  CMD_PORT :: int
  MAX_SPACE :: u64
  SHRD_FLDR :: string
  TIMEOUT :: nat

text \<open>
  \<^verbatim>\<open>struct server_state\<close>. The multicast membership record \<^verbatim>\<open>ip_mreq\<close> is written once
  by \<^verbatim>\<open>initialize_connection\<close> and read by \<^verbatim>\<open>clean_up\<close> only; it is left out.
\<close>

record server_state =
  available_space :: u64
  negative_space :: u64
  socket :: int
  files :: "path list"
  open_files :: "string set"

text \<open>
  \<^verbatim>\<open>SIMPL_CMD\<close> and \<^verbatim>\<open>CMPLX_CMD\<close> as \<^verbatim>\<open>server.cpp\<close> reads them: the fields
  \<^verbatim>\<open>cmd\<close>, \<^verbatim>\<open>cmd_seq\<close>, \<^verbatim>\<open>data\<close> and, in the complex record, \<^verbatim>\<open>param\<close>.
\<close>

record simpl_cmd =
  cmd :: string
  cmd_seq :: u64
  data :: string

record cmplx_cmd = simpl_cmd +
  param :: u64

text \<open>
  Modelled from the spec: \<^verbatim>\<open>send_simple_message\<close>, \<^verbatim>\<open>send_complex_message\<close> and
  \<^verbatim>\<open>error_message\<close> are declared in \<^verbatim>\<open>connection.h\<close>, which is not among the sources.
  Each call is kept as the message the spec has it send to the given address, in call
  order: \<^verbatim>\<open>send_simple_message(socket, address, cmd, data, cmd_seq)\<close> a simple reply,
  \<^verbatim>\<open>send_complex_message(socket, address, cmd, data, cmd_seq, param)\<close> a complex reply
  and \<^verbatim>\<open>error_message(address, text)\<close> the error reply with that text.
\<close>

datatype action =
  Send_simple sockaddr_in string string u64
| Send_complex sockaddr_in string string u64 u64
| Error_message sockaddr_in string

datatype outcome =
  Returned (st_of: server_state) (fs_of: filesystem) (acts_of: "action list")
| Exited (st_of: server_state) (fs_of: filesystem) (acts_of: "action list")
| Thrown (err_of: error) (st_of: server_state) (fs_of: filesystem) (acts_of: "action list")

text \<open>
  \<^verbatim>\<open>fs::path::filename()\<close> on a POSIX path: the text after the last separator. The
  paths of the catalog never end in a separator (they name regular files of the shared
  folder, or are built from a non-empty name without separator), where the library would
  answer \<^verbatim>\<open>"."\<close>.
\<close>

definition filename :: "path \<Rightarrow> string" where
  "filename p = rev (takeWhile (\<lambda>c. c \<noteq> CHR ''/'') (rev p))"

text \<open>The value \<^verbatim>\<open>current_server_state{}\<close> starts with.\<close>

definition initial_state :: server_state where
  "initial_state =
     \<lparr>available_space = 0, negative_space = 0, socket = 0, files = [], open_files = {}\<rparr>"

section \<open>Startup indexing\<close>

text \<open>
  The body of the directory loop of \<^verbatim>\<open>index_files\<close> for one directory entry (lines
  154 to 166): a regular file is appended to the catalog and its size is taken from
  \<^verbatim>\<open>available_space\<close>; what does not fit is added to \<^verbatim>\<open>negative_space\<close>.
\<close>

definition index_entry :: "filesystem \<Rightarrow> server_state \<Rightarrow> path \<Rightarrow> server_state" where
  "index_entry fs state file_path =
     (case fs file_path of
        None \<Rightarrow> state
      | Some current_file_size \<Rightarrow>
          (let state1 = state\<lparr>files := files state @ [file_path]\<rparr> in
           if available_space state1 < current_file_size
           then state1\<lparr>available_space := 0,
                       negative_space := negative_space state1
                                          + (current_file_size - available_space state1)\<rparr>
           else state1\<lparr>available_space := available_space state1 - current_file_size\<rparr>))"

fun index_loop :: "filesystem \<Rightarrow> path list \<Rightarrow> server_state \<Rightarrow> server_state" where
  "index_loop fs [] state = state"
| "index_loop fs (file_path # rest) state = index_loop fs rest (index_entry fs state file_path)"

text \<open>
  \<^verbatim>\<open>index_files\<close>. The directory iteration is the list of entries of the shared folder,
  or \<open>None\<close> when the folder does not exist or is no directory.
\<close>

definition index_files ::
  "server_options \<Rightarrow> path list option \<Rightarrow> filesystem \<Rightarrow> server_state \<Rightarrow> error + server_state"
where
  "index_files options listing fs state =
     (let state1 = state\<lparr>available_space := MAX_SPACE options\<rparr> in
      case listing of
        None \<Rightarrow> Inl (Invalid_argument ''wrong directory'')
      | Some entries \<Rightarrow> Inr (index_loop fs entries state1))"

section \<open>Helpers of connection.h\<close>

text \<open>
  Modelled from the spec: \<^verbatim>\<open>check_data_not_empty\<close> and \<^verbatim>\<open>check_data_empty\<close> are
  declared in \<^verbatim>\<open>connection.h\<close>, which is not among the sources. The spec has a recognised
  command with the wrong payload shape answered through the error helper and the handler
  skipped; a payload of the right shape passes without any message.
\<close>

definition check_data_not_empty :: "'a simpl_cmd_scheme \<Rightarrow> sockaddr_in \<Rightarrow> bool \<times> action list" where
  "check_data_not_empty request client_address =
     (if data request \<noteq> [] then (True, [])
      else (False, [Error_message client_address ''Data is empty.'']))"

definition check_data_empty :: "'a simpl_cmd_scheme \<Rightarrow> sockaddr_in \<Rightarrow> bool \<times> action list" where
  "check_data_empty request client_address =
     (if data request = [] then (True, [])
      else (False, [Error_message client_address ''Data is not empty.'']))"

section \<open>The remove handler\<close>

text \<open>The search of lines 227 to 229: the first catalog entry with the target name.\<close>

fun find_file :: "string \<Rightarrow> path list \<Rightarrow> path option" where
  "find_file target [] = None"
| "find_file target (f # rest) = (if filename f \<noteq> target then find_file target rest else Some f)"

text \<open>\<^verbatim>\<open>state.files.erase(it)\<close> for the iterator that search stops at.\<close>

fun erase_file :: "string \<Rightarrow> path list \<Rightarrow> path list" where
  "erase_file target [] = []"
| "erase_file target (f # rest) =
     (if filename f \<noteq> target then f # erase_file target rest else rest)"

text \<open>Lines 232 to 244: the size \<open>sz\<close> of the removed file goes back to the ledger.\<close>

definition refund :: "server_state \<Rightarrow> u64 \<Rightarrow> server_state" where
  "refund state sz =
     (if negative_space state > 0 then
        (if negative_space state > sz
         then state\<lparr>negative_space := negative_space state - sz\<rparr>
         else state\<lparr>negative_space := 0,
                    available_space := available_space state + (sz - negative_space state)\<rparr>)
      else state\<lparr>available_space := available_space state + sz\<rparr>)"

text \<open>
  The remove handler, lines 224 to 249. \<^verbatim>\<open>file_size\<close> throws when the path is no
  regular file of the shared folder; \<^verbatim>\<open>fs::remove\<close> of a file that is there is taken
  to succeed.
\<close>

definition remove ::
  "server_state \<Rightarrow> filesystem \<Rightarrow> sockaddr_in \<Rightarrow> simpl_cmd \<Rightarrow> outcome"
where
  "remove state fs client_address request =
     (case check_data_not_empty request client_address of
        (False, acts) \<Rightarrow> Returned state fs acts
      | (True, acts) \<Rightarrow>
          (let target_file_name = data request in
           case find_file target_file_name (files state) of
             None \<Rightarrow> Returned state fs acts
           | Some it \<Rightarrow>
               (case fs it of
                  None \<Rightarrow> Thrown (Filesystem_error ''file_size'') state fs acts
                | Some sz \<Rightarrow>
                    Returned ((refund state sz)\<lparr>files := erase_file target_file_name (files state)\<rparr>)
                             (fs(it := None)) acts)))"

section \<open>The search handler\<close>

text \<open>
  The constants of \<^verbatim>\<open>connection.h\<close> that \<^verbatim>\<open>server.cpp\<close> uses are parameters of
  the model: the chunk size \<^verbatim>\<open>BSIZE\<close>, the payload limit \<^verbatim>\<open>MAX_SIMPL_DATA_LEN\<close> and
  the shortest datagram \<^verbatim>\<open>message_too_short\<close> lets pass as a simple and as a complex
  record.
\<close>

record limits =
  BSIZE :: nat
  MAX_SIMPL_DATA_LEN :: nat
  min_simpl_len :: nat
  min_cmplx_len :: nat

fun starts_with :: "string \<Rightarrow> string \<Rightarrow> bool" where
  "starts_with s [] = True"
| "starts_with [] (c # t) = False"
| "starts_with (d # s) (c # t) = (d = c \<and> starts_with s t)"

text \<open>\<^verbatim>\<open>file_name.find(target) != std::string::npos\<close>.\<close>

fun str_find :: "string \<Rightarrow> string \<Rightarrow> bool" where
  "str_find [] target = (target = [])"
| "str_find (c # s) target = (starts_with (c # s) target \<or> str_find s target)"

text \<open>Lines 254 to 260: the names that contain the target, in catalog order.\<close>

definition search_results :: "string \<Rightarrow> path list \<Rightarrow> string list" where
  "search_results target_file_name fls =
     filter (\<lambda>file_name. str_find file_name target_file_name) (map filename fls)"

text \<open>
  The inner loop of lines 270 to 274, which fills one packet: \<open>dat\<close> is the payload so
  far, \<open>current\<close> the name appended last. It returns the payload and the names left.
\<close>

fun fill_packet :: "nat \<Rightarrow> string \<Rightarrow> string \<Rightarrow> string list \<Rightarrow> string \<times> string list" where
  "fill_packet max_len dat current [] = (dat, [])"
| "fill_packet max_len dat current (next_name # results) =
     (if length dat + length current + 1 < max_len
      then fill_packet max_len (dat @ ''\<newline>'' @ next_name) next_name results
      else (dat, next_name # results))"

lemma fill_packet_length:
  "length (snd (fill_packet max_len dat current results)) \<le> length results"
  by (induction results arbitrary: dat current) (auto intro: le_SucI)

text \<open>The outer loop of lines 264 to 278: the payloads sent, in order.\<close>

function packets :: "nat \<Rightarrow> string list \<Rightarrow> string list" where
  "packets max_len [] = []"
| "packets max_len (current # results) =
     (case fill_packet max_len current current results of
        (dat, rest) \<Rightarrow> dat # packets max_len rest)"
  by pat_completeness auto
termination
  apply (relation "measure (\<lambda>(max_len, results). length results)")
   apply simp
  subgoal for max_len current results
    using fill_packet_length [of max_len current current results]
    by (cases "fill_packet max_len current current results") auto
  done

definition list ::
  "limits \<Rightarrow> server_state \<Rightarrow> filesystem \<Rightarrow> sockaddr_in \<Rightarrow> simpl_cmd \<Rightarrow> outcome"
where
  "list lim state fs client_address request =
     Returned state fs
       (map (\<lambda>dat. Send_simple client_address ''MY_LIST'' dat (cmd_seq request))
            (packets (MAX_SIMPL_DATA_LEN lim) (search_results (data request) (files state))))"

text \<open>What a client reads from a sequence of payloads: the payloads joined by single newlines.\<close>

fun join_lines :: "string list \<Rightarrow> string" where
  "join_lines [] = []"
| "join_lines [name] = name"
| "join_lines (name # rest) = name @ ''\<newline>'' @ join_lines rest"

section \<open>Transfers over TCP\<close>

text \<open>
  What the operating system answers during one transfer. \<open>tcp_socket\<close> is the outcome of
  \<^verbatim>\<open>create_tcp_socket\<close>: the name of the call that failed, or the port
  \<^verbatim>\<open>getsockname\<close> reports. \<open>read_results k\<close> is the number of bytes the \<open>k\<close>-th
  \<^verbatim>\<open>read\<close> finds, \<open>write_results k\<close> the number of bytes the \<open>k\<close>-th \<^verbatim>\<open>write\<close> can
  take; a negative number is a failed call. \<open>unlink_result\<close> is what \<^verbatim>\<open>unlink\<close>
  returns at the end of a failed upload; the program does not look at it.
\<close>

record tcp_env =
  tcp_socket :: "string + u64"
  select_result :: int
  accept_result :: int
  open_result :: int
  read_results :: "nat \<Rightarrow> int"
  write_results :: "nat \<Rightarrow> int"
  close_result :: int
  unlink_result :: int

datatype fork_result = Fork_failed | Fork_child | Fork_parent

text \<open>
  \<^verbatim>\<open>std::string::c_str()\<close> as the system calls read it: the bytes before the first
  NUL byte.
\<close>

definition c_str :: "string \<Rightarrow> string" where
  "c_str s = takeWhile (\<lambda>c. c \<noteq> CHR 0x00) s"

definition create_tcp_socket :: "tcp_env \<Rightarrow> error + u64" where
  "create_tcp_socket env =
     (case tcp_socket env of Inl call \<Rightarrow> Inl (Runtime_error call) | Inr port \<Rightarrow> Inr port)"

text \<open>\<^verbatim>\<open>read(fd, buffer, bsize)\<close> when \<open>avail\<close> bytes are there to be read.\<close>

definition sys_read :: "nat \<Rightarrow> int \<Rightarrow> int" where
  "sys_read bsize avail = (if avail < 0 then - 1 else min avail (int bsize))"

text \<open>\<^verbatim>\<open>write(fd, buffer, count)\<close> when the device takes \<open>room\<close> bytes.\<close>

definition sys_write :: "int \<Rightarrow> int \<Rightarrow> int" where
  "sys_write count room = (if room < 0 then - 1 else min room count)"

text \<open>A value stored in a \<^verbatim>\<open>ssize_t\<close>: 64 bits, two's complement.\<close>

definition ssize_t :: "int \<Rightarrow> int" where
  "ssize_t x = sint (word_of_int x :: 64 word)"

lemma ssize_t_id: "- (2 ^ 63) \<le> x \<Longrightarrow> x < 2 ^ 63 \<Longrightarrow> ssize_t x = x"
  unfolding ssize_t_def by (simp add: sint_sbintrunc' signed_take_bit_int_eq_self)

lemma ssize_t_less: "ssize_t x < 2 ^ 63"
  unfolding ssize_t_def using sint_lt [of "word_of_int x :: 64 word"] by simp

lemma ssize_t_le: "0 \<le> x \<Longrightarrow> ssize_t x \<le> x"
  using ssize_t_id [of x] ssize_t_less [of x] by (cases "x < 2 ^ 63") auto

subsection \<open>Sending a file\<close>

text \<open>
  The loop of lines 341 to 349 on a file with \<open>left\<close> bytes to go: the \<open>k\<close>-th
  \<^verbatim>\<open>read\<close> of the file fails when \<open>read_results env k\<close> is negative and delivers the
  next chunk of the file otherwise. The loop ends with the name of the exception thrown,
  or with the number of bytes sent.
\<close>

function send_loop :: "nat \<Rightarrow> tcp_env \<Rightarrow> nat \<Rightarrow> nat \<Rightarrow> nat \<Rightarrow> string + nat" where
  "send_loop bsize env k left sent =
     (let read_len = (if read_results env k < 0 then - 1 else sys_read bsize (int left)) in
      if read_len > 0 then
        (let snd_len = sys_write read_len (write_results env k) in
         if snd_len \<noteq> read_len then Inl ''writing to client socket''
         else send_loop bsize env (Suc k) (left - nat read_len) (sent + nat read_len))
      else if read_len < 0 then Inl ''read''
      else Inr sent)"
  by pat_completeness auto
termination
  by (relation "measure (\<lambda>(bsize, env, k, left, sent). left)")
     (auto simp: sys_read_def split: if_splits)

definition send_file ::
  "nat \<Rightarrow> tcp_env \<Rightarrow> server_options \<Rightarrow> server_state \<Rightarrow> filesystem \<Rightarrow> sockaddr_in
     \<Rightarrow> simpl_cmd \<Rightarrow> path \<Rightarrow> outcome"
where
  "send_file bsize env options state fs client_udp request file_path =
     (case create_tcp_socket env of
        Inl e \<Rightarrow> Thrown e state fs []
      | Inr port \<Rightarrow>
          (let acts = [Send_complex client_udp ''CONNECT_ME'' (data request) (cmd_seq request) port] in
           if select_result env \<noteq> 0 then
             (if accept_result env < 0 then Thrown (Runtime_error ''accept'') state fs acts
              else
                (case fs (c_str file_path) of
                   None \<Rightarrow> Thrown (Runtime_error ''open'') state fs acts
                 | Some sz \<Rightarrow>
                     if open_result env < 0 then Thrown (Runtime_error ''open'') state fs acts
                     else
                       (case send_loop bsize env 0 (unat sz) 0 of
                          Inl what \<Rightarrow> Thrown (Runtime_error what) state fs acts
                        | Inr sent \<Rightarrow>
                            if close_result env < 0
                            then Thrown (Runtime_error ''close'') state fs acts
                            else Exited state fs acts)))
           else Exited state fs acts))"

text \<open>The fetch handler, lines 360 to 377.\<close>

definition fetch ::
  "nat \<Rightarrow> fork_result \<Rightarrow> tcp_env \<Rightarrow> server_options \<Rightarrow> server_state \<Rightarrow> filesystem
     \<Rightarrow> sockaddr_in \<Rightarrow> simpl_cmd \<Rightarrow> outcome"
where
  "fetch bsize fk env options state fs client_address request =
     (case find_file (data request) (files state) of
        Some file \<Rightarrow>
          (case fk of
             Fork_failed \<Rightarrow> Thrown (Runtime_error ''fork'') state fs []
           | Fork_child \<Rightarrow> send_file bsize env options state fs client_address request file
           | Fork_parent \<Rightarrow> Returned state fs [])
      | None \<Rightarrow> Returned state fs [Error_message client_address ''Invalid file name.''])"

subsection \<open>Receiving a file\<close>

text \<open>
  The loop of lines 417 to 425. \<open>k\<close> counts the calls of \<^verbatim>\<open>write\<close>; \<open>written\<close> is the
  number of bytes that have reached the backing file. The result is the final
  \<^verbatim>\<open>remaining_file_size\<close>, \<^verbatim>\<open>read_len\<close> and \<^verbatim>\<open>error_occurred\<close>, and \<open>written\<close>.
\<close>

function receive_loop ::
  "nat \<Rightarrow> tcp_env \<Rightarrow> nat \<Rightarrow> int \<Rightarrow> int \<Rightarrow> bool \<Rightarrow> int \<Rightarrow> int \<times> int \<times> bool \<times> int"
where
  "receive_loop bsize env k remaining_file_size read_len error_occurred written =
     (if remaining_file_size > 0 \<and> read_len > 0 \<and> \<not> error_occurred then
        (let to_write_len = min read_len remaining_file_size;
             write_len = sys_write to_write_len (write_results env k);
             error_occurred1 = (if write_len \<noteq> to_write_len then True else error_occurred);
             remaining_file_size1 = ssize_t (remaining_file_size - write_len);
             read_len1 = sys_read bsize (read_results env (Suc k))
         in receive_loop bsize env (Suc k) remaining_file_size1 read_len1 error_occurred1
              (written + max 0 write_len))
      else (remaining_file_size, read_len, error_occurred, written))"
  by pat_completeness auto
termination
proof (relation "measure (\<lambda>(bsize, env, k, remaining, read_len, err, written).
                            if err then 0 else nat remaining + 1)")
  fix bsize :: nat and env :: tcp_env and k :: nat and remaining_file_size read_len :: int
    and error_occurred :: bool and written x xa :: int and xb :: bool and xc xd :: int
  assume c: "0 < remaining_file_size \<and> 0 < read_len \<and> \<not> error_occurred"
    and x: "x = min read_len remaining_file_size"
    and xa: "xa = sys_write x (write_results env k)"
    and xb: "xb = (if xa \<noteq> x then True else error_occurred)"
    and xc: "xc = ssize_t (remaining_file_size - xa)"
  show "((bsize, env, Suc k, xc, xd, xb, written + max 0 xa),
         (bsize, env, k, remaining_file_size, read_len, error_occurred, written))
        \<in> measure (\<lambda>(bsize, env, k, remaining, read_len, err, written).
                      if err then 0 else nat remaining + 1)"
  proof (cases "xa = x")
    case True
    from c x have "0 < x" "x \<le> remaining_file_size" by auto
    with True xc have "xc \<le> remaining_file_size - x"
      using ssize_t_le [of "remaining_file_size - x"] by simp
    with \<open>0 < x\<close> True xb c show ?thesis by auto
  next
    case False
    with xb c show ?thesis by auto
  qed
qed simp

text \<open>
  The backing file after \<open>written\<close> bytes were written from its start. \<^verbatim>\<open>open\<close> is
  called with \<^verbatim>\<open>O_CREAT\<close> and without \<^verbatim>\<open>O_TRUNC\<close>: a file that was there keeps what
  lies behind the written bytes.
\<close>

definition write_file :: "filesystem \<Rightarrow> path \<Rightarrow> int \<Rightarrow> filesystem" where
  "write_file fs file_name written =
     (case fs file_name of
        None \<Rightarrow> fs(file_name \<mapsto> word_of_int written)
      | Some old \<Rightarrow> fs(file_name \<mapsto> (if uint old < written then word_of_int written else old)))"

text \<open>
  Lines 434 to 440: the end of \<^verbatim>\<open>receive_file\<close>. \<^verbatim>\<open>unlink\<close> gets
  \<^verbatim>\<open>filename.c_str()\<close> and its result is ignored: when it fails the file stays.
\<close>

definition receive_end ::
  "tcp_env \<Rightarrow> bool \<Rightarrow> string \<Rightarrow> server_state \<Rightarrow> filesystem \<Rightarrow> action list \<Rightarrow> outcome"
where
  "receive_end env error_occurred file_name state fs acts =
     Exited (state\<lparr>open_files := open_files state - {file_name}\<rparr>)
            (if error_occurred
             then (if unlink_result env < 0 then fs else fs(c_str file_name := None))
             else fs) acts"

text \<open>
  \<^verbatim>\<open>receive_file\<close>, lines 380 to 441. \<^verbatim>\<open>open\<close> gets \<^verbatim>\<open>filename.c_str()\<close>;
  \<^verbatim>\<open>open_files\<close> holds the whole string.
\<close>

definition receive_file ::
  "nat \<Rightarrow> tcp_env \<Rightarrow> server_options \<Rightarrow> server_state \<Rightarrow> filesystem \<Rightarrow> sockaddr_in
     \<Rightarrow> cmplx_cmd \<Rightarrow> outcome"
where
  "receive_file bsize env options state fs client_udp request =
     (let remaining_file_size = sint (param request);
          file_name = SHRD_FLDR options @ ''/'' @ data request
      in case create_tcp_socket env of
           Inl e \<Rightarrow> Thrown e state fs []
         | Inr port \<Rightarrow>
             (let acts = [Send_complex client_udp ''CAN_ADD'' [] (cmd_seq request) port] in
              if select_result env \<noteq> 0 then
                (if accept_result env < 0 then Thrown (Runtime_error ''accept'') state fs acts
                 else if open_result env < 0 then Thrown (Runtime_error ''open'') state fs acts
                 else
                   (let state1 = state\<lparr>open_files := insert file_name (open_files state)\<rparr>;
                        first_read_len = sys_read bsize (read_results env 0)
                    in case receive_loop bsize env 0 remaining_file_size first_read_len False 0 of
                         (remaining, read_len, err, written) \<Rightarrow>
                           (let fs1 = write_file fs (c_str file_name) written;
                                error_occurred =
                                  (if read_len < 0 \<or> remaining \<noteq> 0 then True else err)
                            in if close_result env < 0
                               then Thrown (Runtime_error ''close'') state1 fs1 acts
                               else receive_end env error_occurred file_name state1 fs1 acts)))
              else receive_end env False file_name state fs acts))"

text \<open>The upload handler, lines 444 to 474.\<close>

definition upload ::
  "nat \<Rightarrow> fork_result \<Rightarrow> tcp_env \<Rightarrow> server_options \<Rightarrow> server_state \<Rightarrow> filesystem
     \<Rightarrow> sockaddr_in \<Rightarrow> cmplx_cmd \<Rightarrow> outcome"
where
  "upload bsize fk env options state fs client_address request =
     (let exists = list_ex (\<lambda>file. filename file = data request) (files state) in
      if available_space state < param request \<or> exists
         \<or> CHR ''/'' \<in> set (data request) \<or> data request = []
      then Returned state fs
             [Send_simple client_address ''NO_WAY'' (data request) (cmd_seq request)]
      else
        (let state1 = state\<lparr>available_space := available_space state - param request\<rparr>;
             new_file = SHRD_FLDR options @ ''/'' @ data request;
             state2 = state1\<lparr>files := files state1 @ [new_file]\<rparr>
         in case fk of
              Fork_failed \<Rightarrow> Thrown (Runtime_error ''fork'') state2 fs []
            | Fork_child \<Rightarrow> receive_file bsize env options state2 fs client_address request
            | Fork_parent \<Rightarrow> Returned state2 fs []))"

section \<open>The dispatcher\<close>

text \<open>The discover handler, lines 215 to 221.\<close>

definition discover ::
  "server_state \<Rightarrow> filesystem \<Rightarrow> server_options \<Rightarrow> sockaddr_in \<Rightarrow> simpl_cmd \<Rightarrow> outcome"
where
  "discover state fs options client_address request =
     (case check_data_empty request client_address of
        (True, acts) \<Rightarrow>
          Returned state fs
            (acts @ [Send_complex client_address ''GOOD_DAY'' (MCAST_ADDR options)
                       (cmd_seq request) (available_space state)])
      | (False, acts) \<Rightarrow> Returned state fs acts)"

text \<open>\<^verbatim>\<open>command_equal\<close>, lines 205 to 212.\<close>

definition command_equal :: "'a simpl_cmd_scheme \<Rightarrow> string \<Rightarrow> bool" where
  "command_equal request command =
     (if list_ex (\<lambda>c. c \<noteq> CHR 0x00) (drop (length command) (cmd request)) then False
      else take (length command) (cmd request) = command)"

text \<open>
  A datagram as \<^verbatim>\<open>recvfrom\<close> delivers it: the number of bytes received and what the
  constructors \<^verbatim>\<open>SIMPL_CMD(buffer, rcv_len)\<close> and \<^verbatim>\<open>CMPLX_CMD(buffer, rcv_len)\<close> of
  \<^verbatim>\<open>connection.h\<close> make of the buffer.
\<close>

record datagram =
  rcv_len :: int
  as_simpl :: simpl_cmd
  as_cmplx :: cmplx_cmd

text \<open>
  Modelled from the spec: \<^verbatim>\<open>message_too_short\<close> is declared in \<^verbatim>\<open>connection.h\<close>,
  which is not among the sources. The spec has a datagram shorter than the minimum size
  of its record dropped without a reply.
\<close>

definition message_too_short :: "nat \<Rightarrow> int \<Rightarrow> bool" where
  "message_too_short min_len len = (len < int min_len)"

text \<open>One turn of the loop of \<^verbatim>\<open>read_requests\<close>, lines 485 to 518.\<close>

definition read_requests ::
  "limits \<Rightarrow> fork_result \<Rightarrow> tcp_env \<Rightarrow> server_options \<Rightarrow> server_state \<Rightarrow> filesystem
     \<Rightarrow> sockaddr_in \<Rightarrow> datagram \<Rightarrow> outcome"
where
  "read_requests lim fk env options state fs client_address dg =
     (if rcv_len dg < 0 then Thrown (Runtime_error ''read'') state fs []
      else if message_too_short (min_simpl_len lim) (rcv_len dg) then Returned state fs []
      else
        (let request = as_simpl dg in
         if command_equal request ''HELLO'' then discover state fs options client_address request
         else if command_equal request ''DEL'' then remove state fs client_address request
         else if command_equal request ''LIST'' then list lim state fs client_address request
         else if command_equal request ''GET''
           then fetch (BSIZE lim) fk env options state fs client_address request
         else if command_equal request ''ADD'' then
           (if message_too_short (min_cmplx_len lim) (rcv_len dg) then Returned state fs []
            else upload (BSIZE lim) fk env options state fs client_address (as_cmplx dg))
         else Returned state fs [Error_message client_address ''Invalid cmd.'']))"

section \<open>Reachable states\<close>

text \<open>
  The states of the dispatcher: the state \<^verbatim>\<open>index_files\<close> builds from the zero state
  at startup, and every state a command handler returns to the dispatcher loop with.
  The shared folder a handler finds is whatever is on disk when the request arrives.
\<close>

inductive reachable :: "server_options \<Rightarrow> server_state \<Rightarrow> bool" for options where
  startup: "index_files options (Some entries) fs initial_state = Inr state
      \<Longrightarrow> reachable options state"
| discovered: "reachable options state
      \<Longrightarrow> discover state fs options client simple = Returned state' fs' acts
      \<Longrightarrow> reachable options state'"
| removed: "reachable options state
      \<Longrightarrow> remove state fs client simple = Returned state' fs' acts
      \<Longrightarrow> reachable options state'"
| listed: "reachable options state
      \<Longrightarrow> list lim state fs client simple = Returned state' fs' acts
      \<Longrightarrow> reachable options state'"
| fetched: "reachable options state
      \<Longrightarrow> fetch bsize fk env options state fs client simple = Returned state' fs' acts
      \<Longrightarrow> reachable options state'"
| uploaded: "reachable options state
      \<Longrightarrow> upload bsize fk env options state fs client complex = Returned state' fs' acts
      \<Longrightarrow> reachable options state'"

definition debt_excludes_space :: "server_state \<Rightarrow> bool" where
  "debt_excludes_space state \<longleftrightarrow> (negative_space state \<noteq> 0 \<longrightarrow> available_space state = 0)"

subsection \<open>A book of reserved sizes\<close>

text \<open>
  The program keeps no record of what each catalog entry was charged; \<^verbatim>\<open>remove\<close> reads
  the size of the file again. To state when \<^verbatim>\<open>available_space\<close> stays within the
  quota, the book pairs every catalog entry with the bytes reserved for it: the size it
  was indexed with, or the size declared at its upload.
\<close>

fun index_book :: "filesystem \<Rightarrow> path list \<Rightarrow> (path \<times> nat) list" where
  "index_book fs [] = []"
| "index_book fs (file_path # rest) =
     (case fs file_path of
        None \<Rightarrow> index_book fs rest
      | Some sz \<Rightarrow> (file_path, unat sz) # index_book fs rest)"

fun book_find :: "string \<Rightarrow> (path \<times> nat) list \<Rightarrow> (path \<times> nat) option" where
  "book_find target [] = None"
| "book_find target (e # rest) =
     (if filename (fst e) \<noteq> target then book_find target rest else Some e)"

fun book_erase :: "string \<Rightarrow> (path \<times> nat) list \<Rightarrow> (path \<times> nat) list" where
  "book_erase target [] = []"
| "book_erase target (e # rest) =
     (if filename (fst e) \<noteq> target then e # book_erase target rest else rest)"

text \<open>
  The states reached with their book when the quota and the sizes of the indexed files
  add up to less than \<open>2 ^ 64\<close> and every removal finds the file no larger than what
  the book reserved for it.
\<close>

inductive booked :: "server_options \<Rightarrow> server_state \<Rightarrow> (path \<times> nat) list \<Rightarrow> bool"
  for options where
  booked_startup: "index_files options (Some entries) fs initial_state = Inr state
      \<Longrightarrow> unat (MAX_SPACE options) + sum_list (map snd (index_book fs entries)) < 2 ^ 64
      \<Longrightarrow> booked options state (index_book fs entries)"
| booked_removed: "booked options state book
      \<Longrightarrow> remove state fs client simple = Returned state' fs' acts
      \<Longrightarrow> data simple \<noteq> []
      \<Longrightarrow> book_find (data simple) book = Some (it, reserved)
      \<Longrightarrow> fs it = Some sz
      \<Longrightarrow> unat sz \<le> reserved
      \<Longrightarrow> booked options state' (book_erase (data simple) book)"
| booked_uploaded: "booked options state book
      \<Longrightarrow> upload bsize fk env options state fs client complex = Returned state' fs' acts
      \<Longrightarrow> \<not> (available_space state < param complex
              \<or> data complex \<in> set (map filename (files state))
              \<or> CHR ''/'' \<in> set (data complex) \<or> data complex = [])
      \<Longrightarrow> booked options state'
            (book @ [(SHRD_FLDR options @ ''/'' @ data complex, unat (param complex))])"

definition ledger_ok :: "u64 \<Rightarrow> server_state \<Rightarrow> (path \<times> nat) list \<Rightarrow> bool" where
  "ledger_ok quota state book \<longleftrightarrow>
     map fst book = files state
     \<and> unat (available_space state) + sum_list (map snd book)
         \<le> unat quota + unat (negative_space state)
     \<and> debt_excludes_space state"

section \<open>Facts about names and the catalog\<close>

lemma filename_append_name:
  assumes "CHR ''/'' \<notin> set name"
  shows "filename (dir @ ''/'' @ name) = name"
proof -
  have all: "\<forall>c \<in> set (rev name). c \<noteq> CHR ''/''"
    using assms by auto
  have "filename (dir @ ''/'' @ name) = rev (takeWhile (\<lambda>c. c \<noteq> CHR ''/'') (rev name))"
    by (simp add: filename_def takeWhile_tail)
  also have "\<dots> = rev (rev name)"
    using all by (simp only: takeWhile_eq_all_conv [THEN iffD2])
  finally show ?thesis by simp
qed

lemma c_str_no_NUL: "CHR 0x00 \<notin> set s \<Longrightarrow> c_str s = s"
  unfolding c_str_def by (induction s) auto

lemma find_file_None_iff:
  "find_file target fls = None \<longleftrightarrow> target \<notin> set (map filename fls)"
  by (induction fls) auto

lemma find_file_unknown:
  "target \<notin> set (map filename fls) \<Longrightarrow> find_file target fls = None"
  by (simp add: find_file_None_iff)

lemma list_ex_filename_iff:
  "list_ex (\<lambda>file. filename file = target) fls \<longleftrightarrow> target \<in> set (map filename fls)"
  by (induction fls) auto

section \<open>Removal and the ledger\<close>

text \<open>
  Claim C1. Removing a catalog file of size \<open>s\<close> repays debt first:
  \<^verbatim>\<open>negative_space\<close> goes down by the smaller of itself and \<open>s\<close>, and only the rest
  of \<open>s\<close> is added to \<^verbatim>\<open>available_space\<close>. With a quota of 100 and one startup file
  of 150 bytes, indexing gives \<^verbatim>\<open>available_space\<close> 0 and \<^verbatim>\<open>negative_space\<close> 50, and
  removing the file gives \<^verbatim>\<open>negative_space\<close> 0 and \<^verbatim>\<open>available_space\<close> 100.
\<close>

theorem remove_refund:
  "(data request \<noteq> [] \<and> find_file (data request) (files state) = Some it \<and> fs it = Some s \<longrightarrow>
      remove state fs client request =
        Returned (state\<lparr>negative_space := negative_space state - min (negative_space state) s,
                        available_space := available_space state + (s - min (negative_space state) s),
                        files := erase_file (data request) (files state)\<rparr>)
                 (fs(it := None)) [])
   \<and> index_files \<lparr>MCAST_ADDR = ''239.10.11.12'', CMD_PORT = 6543, MAX_SPACE = 100,
                   SHRD_FLDR = ''shared'', TIMEOUT = 5\<rparr>
        (Some [''shared/a'']) [''shared/a'' \<mapsto> 150] initial_state
      = Inr \<lparr>available_space = 0, negative_space = 50, socket = 0, files = [''shared/a''],
              open_files = {}\<rparr>
   \<and> remove \<lparr>available_space = 0, negative_space = 50, socket = 0, files = [''shared/a''],
              open_files = {}\<rparr> [''shared/a'' \<mapsto> 150] (Sockaddr_in 1 2)
        \<lparr>cmd = ''DEL'', cmd_seq = 7, data = ''a''\<rparr>
      = Returned \<lparr>available_space = 100, negative_space = 0, socket = 0, files = [],
              open_files = {}\<rparr> Map.empty []"
proof (intro conjI impI)
  assume a: "data request \<noteq> [] \<and> find_file (data request) (files state) = Some it \<and> fs it = Some s"
  show "remove state fs client request =
        Returned (state\<lparr>negative_space := negative_space state - min (negative_space state) s,
                        available_space := available_space state + (s - min (negative_space state) s),
                        files := erase_file (data request) (files state)\<rparr>)
                 (fs(it := None)) []"
    using a by (auto simp: remove_def check_data_not_empty_def refund_def min_def word_gt_0 not_less)
next
  show "index_files \<lparr>MCAST_ADDR = ''239.10.11.12'', CMD_PORT = 6543, MAX_SPACE = 100,
                   SHRD_FLDR = ''shared'', TIMEOUT = 5\<rparr>
        (Some [''shared/a'']) [''shared/a'' \<mapsto> 150] initial_state
      = Inr \<lparr>available_space = 0, negative_space = 50, socket = 0, files = [''shared/a''],
              open_files = {}\<rparr>"
    by (simp add: index_files_def index_entry_def initial_state_def)
next
  show "remove \<lparr>available_space = 0, negative_space = 50, socket = 0, files = [''shared/a''],
              open_files = {}\<rparr> [''shared/a'' \<mapsto> 150] (Sockaddr_in 1 2)
        \<lparr>cmd = ''DEL'', cmd_seq = 7, data = ''a''\<rparr>
      = Returned \<lparr>available_space = 100, negative_space = 0, socket = 0, files = [],
              open_files = {}\<rparr> Map.empty []"
    by (simp add: remove_def check_data_not_empty_def refund_def filename_def)
qed

theorem remove_refund_witness:
  "remove \<lparr>available_space = 0, negative_space = 200, socket = 3,
            files = [''shared/a'', ''shared/b''], open_files = {}\<rparr>
          [''shared/a'' \<mapsto> 150, ''shared/b'' \<mapsto> 120] (Sockaddr_in 1 2)
          \<lparr>cmd = ''DEL'', cmd_seq = 7, data = ''b''\<rparr>
   = Returned \<lparr>available_space = 0, negative_space = 80, socket = 3,
                files = [''shared/a''], open_files = {}\<rparr>
              [''shared/a'' \<mapsto> 150] []"
  using remove_refund [of "\<lparr>cmd = ''DEL'', cmd_seq = 7, data = ''b''\<rparr>"
      "\<lparr>available_space = 0, negative_space = 200, socket = 3,
            files = [''shared/a'', ''shared/b''], open_files = {}\<rparr>"
      "''shared/b''" "[''shared/a'' \<mapsto> 150, ''shared/b'' \<mapsto> 120]" 120 "Sockaddr_in 1 2"]
  by (simp add: filename_def)

section \<open>Upload admission\<close>

lemma receive_end_acts: "acts_of (receive_end env e f st fs acts) = acts"
  by (simp add: receive_end_def)

lemma receive_file_acts:
  "set (acts_of (receive_file bsize env options state fs client request))
     \<subseteq> range (Send_complex client ''CAN_ADD'' [] (cmd_seq request))"
  unfolding receive_file_def create_tcp_socket_def Let_def
  by (simp add: receive_end_acts split: sum.split prod.split)

lemma upload_reject:
  assumes "available_space state < param request
         \<or> data request \<in> set (map filename (files state))
         \<or> CHR ''/'' \<in> set (data request) \<or> data request = []"
  shows "upload bsize fk env options state fs client request
          = Returned state fs [Send_simple client ''NO_WAY'' (data request) (cmd_seq request)]"
  using assms unfolding upload_def Let_def list_ex_filename_iff by (simp only: if_True)

lemma upload_accept:
  assumes "\<not> (available_space state < param request
         \<or> data request \<in> set (map filename (files state))
         \<or> CHR ''/'' \<in> set (data request) \<or> data request = [])"
  shows "upload bsize fk env options state fs client request =
     (case fk of
        Fork_failed \<Rightarrow>
          Thrown (Runtime_error ''fork'')
            (state\<lparr>available_space := available_space state - param request,
                   files := files state @ [SHRD_FLDR options @ ''/'' @ data request]\<rparr>) fs []
      | Fork_child \<Rightarrow>
          receive_file bsize env options
            (state\<lparr>available_space := available_space state - param request,
                   files := files state @ [SHRD_FLDR options @ ''/'' @ data request]\<rparr>)
            fs client request
      | Fork_parent \<Rightarrow>
          Returned (state\<lparr>available_space := available_space state - param request,
                   files := files state @ [SHRD_FLDR options @ ''/'' @ data request]\<rparr>) fs [])"
  using assms unfolding upload_def Let_def list_ex_filename_iff by (cases fk) simp_all

text \<open>
  Claim C2. An upload request is answered with the "cannot accept" reply \<^verbatim>\<open>NO_WAY\<close>
  exactly when the declared size exceeds \<^verbatim>\<open>available_space\<close>, or the name is the
  name of a catalog entry, or the name contains the separator, or the name is empty;
  and then the handler returns with the state and the shared folder as they were and
  with nothing but that reply.
\<close>

theorem upload_rejected_iff:
  "(Send_simple client ''NO_WAY'' (data request) (cmd_seq request)
      \<in> set (acts_of (upload bsize fk env options state fs client request))
    \<longleftrightarrow> param request > available_space state
         \<or> data request \<in> set (map filename (files state))
         \<or> CHR ''/'' \<in> set (data request) \<or> data request = [])
   \<and> (Send_simple client ''NO_WAY'' (data request) (cmd_seq request)
      \<in> set (acts_of (upload bsize fk env options state fs client request))
    \<longrightarrow> upload bsize fk env options state fs client request
          = Returned state fs [Send_simple client ''NO_WAY'' (data request) (cmd_seq request)])"
proof (cases "param request > available_space state
         \<or> data request \<in> set (map filename (files state))
         \<or> CHR ''/'' \<in> set (data request) \<or> data request = []")
  case True
  then show ?thesis
    using upload_reject [of state request bsize fk env options fs client] by simp
next
  case False
  have "Send_simple client ''NO_WAY'' (data request) (cmd_seq request)
          \<notin> set (acts_of (upload bsize fk env options state fs client request))"
  proof (cases fk)
    case Fork_child
    then show ?thesis
      using receive_file_acts [of bsize env options _ fs client request]
      by (auto simp: upload_accept [OF False])
  qed (simp_all add: upload_accept [OF False])
  with False show ?thesis by simp
qed

theorem upload_rejected_iff_witness:
  "upload 512 Fork_parent
     \<lparr>tcp_socket = Inr 40000, select_result = 1, accept_result = 4, open_result = 5,
      read_results = (\<lambda>k. 0), write_results = (\<lambda>k. 0), close_result = 0, unlink_result = 0\<rparr>
     \<lparr>MCAST_ADDR = ''239.10.11.12'', CMD_PORT = 6543, MAX_SPACE = 100,
      SHRD_FLDR = ''shared'', TIMEOUT = 5\<rparr>
     \<lparr>available_space = 10, negative_space = 0, socket = 3, files = [''shared/a''],
      open_files = {}\<rparr>
     [''shared/a'' \<mapsto> 90] (Sockaddr_in 1 2)
     \<lparr>cmd = ''ADD'', cmd_seq = 7, data = ''b'', param = 11\<rparr>
   = Returned \<lparr>available_space = 10, negative_space = 0, socket = 3, files = [''shared/a''],
      open_files = {}\<rparr> [''shared/a'' \<mapsto> 90]
      [Send_simple (Sockaddr_in 1 2) ''NO_WAY'' ''b'' 7]"
  using upload_rejected_iff [of "Sockaddr_in 1 2"
      "\<lparr>cmd = ''ADD'', cmd_seq = 7, data = ''b'', param = 11\<rparr>" 512 Fork_parent
      "\<lparr>tcp_socket = Inr 40000, select_result = 1, accept_result = 4, open_result = 5,
      read_results = (\<lambda>k. 0), write_results = (\<lambda>k. 0), close_result = 0, unlink_result = 0\<rparr>"
      "\<lparr>MCAST_ADDR = ''239.10.11.12'', CMD_PORT = 6543, MAX_SPACE = 100,
      SHRD_FLDR = ''shared'', TIMEOUT = 5\<rparr>"
      "\<lparr>available_space = 10, negative_space = 0, socket = 3, files = [''shared/a''],
      open_files = {}\<rparr>" "[''shared/a'' \<mapsto> 90]"]
  by simp

section \<open>Search replies\<close>

text \<open>
  Claim C3 fails on the code. The test of line 270 adds the length of the name appended
  last, not of the name about to be appended. With the payload limit 10 and the catalog
  names \<^verbatim>\<open>a\<close> and \<^verbatim>\<open>bcdefghi\<close>, both shorter than the limit, the one datagram sent
  carries a payload of 10 bytes, which is not under the limit.
\<close>

theorem list_payload_reaches_limit:
  "list \<lparr>BSIZE = 512, MAX_SIMPL_DATA_LEN = 10, min_simpl_len = 18, min_cmplx_len = 26\<rparr>
        \<lparr>available_space = 10, negative_space = 0, socket = 3,
          files = [''shared/a'', ''shared/bcdefghi''], open_files = {}\<rparr>
        [''shared/a'' \<mapsto> 40, ''shared/bcdefghi'' \<mapsto> 50] (Sockaddr_in 1 2)
        \<lparr>cmd = ''LIST'', cmd_seq = 7, data = []\<rparr>
   = Returned \<lparr>available_space = 10, negative_space = 0, socket = 3,
          files = [''shared/a'', ''shared/bcdefghi''], open_files = {}\<rparr>
        [''shared/a'' \<mapsto> 40, ''shared/bcdefghi'' \<mapsto> 50]
        [Send_simple (Sockaddr_in 1 2) ''MY_LIST'' ''a\<newline>bcdefghi'' 7]
   \<and> length ''a'' < (10::nat) \<and> length ''bcdefghi'' < (10::nat)
   \<and> \<not> length ''a\<newline>bcdefghi'' < (10::nat)"
  by (simp add: list_def search_results_def filename_def)

text \<open>
  What holds of the packing for every limit: the payloads, joined by newlines, are the
  matching names joined by newlines, in catalog order. And for every limit from 4 on
  there are two names shorter than the limit whose single payload has the length of the
  limit.
\<close>

lemma join_lines_Cons: "rest \<noteq> [] \<Longrightarrow> join_lines (name # rest) = name @ ''\<newline>'' @ join_lines rest"
  by (cases rest) auto

lemma fill_packet_join:
  "fill_packet max_len dat current results = (dat', rest) \<Longrightarrow>
     join_lines (dat' # rest) = join_lines (dat # results)"
proof (induction results arbitrary: dat current)
  case Nil
  then show ?case by simp
next
  case (Cons next_name results)
  show ?case
  proof (cases "length dat + length current + 1 < max_len")
    case True
    with Cons.prems have "fill_packet max_len (dat @ ''\<newline>'' @ next_name) next_name results = (dat', rest)"
      by simp
    from Cons.IH [OF this] show ?thesis
      by (cases results) (simp_all)
  next
    case False
    with Cons.prems show ?thesis by auto
  qed
qed

lemma packets_join: "join_lines (packets max_len names) = join_lines names"
proof (induction max_len names rule: packets.induct)
  case (1 max_len)
  then show ?case by simp
next
  case (2 max_len current results)
  obtain dat rest where f: "fill_packet max_len current current results = (dat, rest)"
    by (cases "fill_packet max_len current current results")
  have ih: "join_lines (packets max_len rest) = join_lines rest"
    using 2 [OF f [symmetric]] .
  have "join_lines (packets max_len (current # results)) = join_lines (dat # packets max_len rest)"
    using f by simp
  also have "\<dots> = join_lines (dat # rest)"
  proof (cases rest)
    case Nil
    then show ?thesis by simp
  next
    case (Cons r rs)
    then have "packets max_len rest \<noteq> []" by (simp split: prod.split)
    then show ?thesis using Cons ih by (simp add: join_lines_Cons)
  qed
  also have "\<dots> = join_lines (current # results)"
    using fill_packet_join [OF f] .
  finally show ?case .
qed

lemma packets_two_names:
  assumes "4 \<le> max_len"
  shows "packets max_len [''a'', replicate (max_len - 2) (CHR ''b'')]
           = [''a\<newline>'' @ replicate (max_len - 2) (CHR ''b'')]"
    and "length (''a\<newline>'' @ replicate (max_len - 2) (CHR ''b'')) = max_len"
  using assms by auto

text \<open>
  Claim C4, as the code has it. The loop of \<^verbatim>\<open>list\<close> sends while names are left, so
  a search request that matches no name sends no datagram at all: the handler returns
  with no message and the state unchanged.
\<close>

theorem list_no_match_sends_nothing:
  "search_results (data request) (files state) = [] \<longrightarrow>
     list lim state fs client request = Returned state fs []"
  by (simp add: list_def)

theorem list_no_match_sends_nothing_witness:
  "list \<lparr>BSIZE = 512, MAX_SIMPL_DATA_LEN = 100, min_simpl_len = 18, min_cmplx_len = 26\<rparr>
        \<lparr>available_space = 10, negative_space = 0, socket = 3, files = [''shared/a''],
          open_files = {}\<rparr>
        [''shared/a'' \<mapsto> 90] (Sockaddr_in 1 2) \<lparr>cmd = ''LIST'', cmd_seq = 7, data = ''zzz''\<rparr>
   = Returned \<lparr>available_space = 10, negative_space = 0, socket = 3, files = [''shared/a''],
          open_files = {}\<rparr> [''shared/a'' \<mapsto> 90] []"
  using list_no_match_sends_nothing [where
      request = "\<lparr>cmd = ''LIST'', cmd_seq = 7, data = ''zzz''\<rparr>"
      and state = "\<lparr>available_space = 10, negative_space = 0, socket = 3,
                    files = [''shared/a''], open_files = {}\<rparr>"
      and lim = "\<lparr>BSIZE = 512, MAX_SIMPL_DATA_LEN = 100, min_simpl_len = 18, min_cmplx_len = 26\<rparr>"
      and fs = "[''shared/a'' \<mapsto> 90]" and client = "Sockaddr_in 1 2"]
  by (simp add: search_results_def filename_def)

text \<open>
  The claim C4 as stated fails: for a search that matches nothing, the messages of the
  handler are not the single \<^verbatim>\<open>MY_LIST\<close> datagram with the empty payload.
\<close>

theorem list_no_match_counterexample:
  "search_results ''zzz'' [''shared/a''] = []
   \<and> acts_of (list \<lparr>BSIZE = 512, MAX_SIMPL_DATA_LEN = 100, min_simpl_len = 18, min_cmplx_len = 26\<rparr>
        \<lparr>available_space = 10, negative_space = 0, socket = 3, files = [''shared/a''],
          open_files = {}\<rparr>
        [''shared/a'' \<mapsto> 90] (Sockaddr_in 1 2) \<lparr>cmd = ''LIST'', cmd_seq = 7, data = ''zzz''\<rparr>)
     \<noteq> [Send_simple (Sockaddr_in 1 2) ''MY_LIST'' [] 7]"
  by (simp add: list_def search_results_def filename_def)

section \<open>The receiving loop\<close>

declare receive_loop.simps [simp del]

lemma receive_loop_stop:
  "\<not> (0 < remaining \<and> 0 < read_len \<and> \<not> err) \<Longrightarrow>
     receive_loop bsize env k remaining read_len err written = (remaining, read_len, err, written)"
  by (subst receive_loop.simps) auto

lemma receive_loop_step:
  "0 < remaining \<and> 0 < read_len \<and> \<not> err \<Longrightarrow>
     receive_loop bsize env k remaining read_len err written =
       receive_loop bsize env (Suc k)
         (ssize_t (remaining - sys_write (min read_len remaining) (write_results env k)))
         (sys_read bsize (read_results env (Suc k)))
         (sys_write (min read_len remaining) (write_results env k) \<noteq> min read_len remaining)
         (written + max 0 (sys_write (min read_len remaining) (write_results env k)))"
  by (subst receive_loop.simps) (simp add: Let_def)

lemma sys_write_range: "sys_write count room = count \<or> (- 1 \<le> sys_write count room \<and> sys_write count room < count)"
  if "0 \<le> count"
  using that by (auto simp: sys_write_def)

lemma receive_loop_inv:
  assumes "0 \<le> remaining" "remaining < 2 ^ 63"
  shows "case receive_loop bsize env k remaining read_len err written of
           (remaining', read_len', err', written') \<Rightarrow>
             written \<le> written' \<and> written' \<le> written + remaining
             \<and> (\<not> err' \<longrightarrow> remaining' = remaining - (written' - written))
             \<and> (err' \<and> \<not> err \<longrightarrow> written' < written + remaining)"
  using assms
proof (induction bsize env k remaining read_len err written rule: receive_loop.induct)
  case (1 bsize env k remaining read_len err written)
  show ?case
  proof (cases "0 < remaining \<and> 0 < read_len \<and> \<not> err")
    case False
    then show ?thesis using "1.prems" by (simp add: receive_loop_stop)
  next
    case True
    define tw where "tw = min read_len remaining"
    define wl where "wl = sys_write tw (write_results env k)"
    define rl1 where "rl1 = sys_read bsize (read_results env (Suc k))"
    have tw: "0 < tw" "tw \<le> remaining" using True by (auto simp: tw_def)
    have step: "receive_loop bsize env k remaining read_len err written =
       receive_loop bsize env (Suc k) (ssize_t (remaining - wl)) rl1 (wl \<noteq> tw)
         (written + max 0 wl)"
      using receive_loop_step [OF True] by (simp add: tw_def wl_def rl1_def)
    show ?thesis
    proof (cases "wl = tw")
      case same: True
      have r1: "ssize_t (remaining - wl) = remaining - tw"
        using same tw "1.prems" by (simp add: ssize_t_id)
      have b: "0 \<le> remaining - tw" "remaining - tw < 2 ^ 63"
        using tw "1.prems" by auto
      have ih: "case receive_loop bsize env (Suc k) (remaining - tw) rl1 False (written + tw) of
           (remaining', read_len', err', written') \<Rightarrow>
             written + tw \<le> written' \<and> written' \<le> written + tw + (remaining - tw)
             \<and> (\<not> err' \<longrightarrow> remaining' = remaining - tw - (written' - (written + tw)))
             \<and> (err' \<and> \<not> False \<longrightarrow> written' < written + tw + (remaining - tw))"
        using "1.IH" [OF True tw_def [symmetric, THEN sym] wl_def refl refl rl1_def] same r1 b True
        by (simp add: tw_def wl_def)
      show ?thesis
        using ih tw True unfolding step r1 using same
        by (auto split: prod.splits)
    next
      case short: False
      have "wl < tw" "- 1 \<le> wl"
        using sys_write_range [of tw "write_results env k"] tw short by (auto simp: wl_def)
      then show ?thesis
        unfolding step using short tw True
        by (simp add: receive_loop_stop)
    qed
  qed
qed

lemma receive_loop_short_write:
  assumes "0 < remaining \<and> 0 < read_len"
    and "sys_write (min read_len remaining) (write_results env k) \<noteq> min read_len remaining"
  shows "fst (snd (snd (receive_loop bsize env k remaining read_len False written)))"
  using assms by (simp add: receive_loop_step receive_loop_stop)

lemma sint_nonneg_uint:
  fixes w :: u64
  assumes "0 \<le> sint w"
  shows "sint w = uint w"
proof -
  have "sint w < 2 ^ 64" using sint_lt [of w] by simp
  with assms have "take_bit 64 (sint w) = sint w"
    by (simp add: take_bit_int_eq_self)
  with uint_sint [of w] show ?thesis by simp
qed

lemma receive_loop_declared:
  fixes declared :: u64
  shows "case receive_loop bsize env 0 (sint declared) read_len False 0 of
           (remaining', read_len', err', written') \<Rightarrow>
             0 \<le> written' \<and> written' \<le> uint declared
             \<and> (written' < uint declared \<longrightarrow> err' \<or> remaining' \<noteq> 0)
             \<and> (\<not> err' \<and> remaining' = 0 \<longrightarrow> written' = uint declared)"
proof (cases "sint declared < 0")
  case True
  then show ?thesis by (simp add: receive_loop_stop)
next
  case False
  then have eq: "sint declared = uint declared" by (simp add: sint_nonneg_uint)
  have "sint declared < 2 ^ 63" using sint_lt [of declared] by simp
  with False show ?thesis
    using receive_loop_inv [where remaining = "sint declared" and bsize = bsize and env = env
        and k = 0 and read_len = read_len and err = False and written = 0]
    by (auto simp: eq split: prod.splits)
qed

text \<open>
  A transfer whose system calls all succeed up to \<^verbatim>\<open>close\<close>: the process exits, and
  the backing file is the written one, or, for a flagged transfer, what \<^verbatim>\<open>unlink\<close>
  leaves.
\<close>

lemma receive_file_connected:
  assumes "tcp_socket env = Inr port" "select_result env \<noteq> 0" "0 \<le> accept_result env"
    "0 \<le> open_result env" "0 \<le> close_result env"
  shows "receive_file bsize env options state fs client request =
     (case receive_loop bsize env 0 (sint (param request))
             (sys_read bsize (read_results env 0)) False 0 of
        (remaining, read_len, err, written) \<Rightarrow>
          Exited (state\<lparr>open_files := open_files state - {SHRD_FLDR options @ ''/'' @ data request}\<rparr>)
            (if (err \<or> read_len < 0 \<or> remaining \<noteq> 0) \<and> 0 \<le> unlink_result env
             then fs(c_str (SHRD_FLDR options @ ''/'' @ data request) := None)
             else write_file fs (c_str (SHRD_FLDR options @ ''/'' @ data request)) written)
            [Send_complex client ''CAN_ADD'' [] (cmd_seq request) port])"
  using assms unfolding receive_file_def create_tcp_socket_def receive_end_def Let_def
  by (auto simp: write_file_def split: prod.splits option.splits)

lemma receive_file_ledger:
  "available_space (st_of (receive_file bsize env options state fs client request))
     = available_space state
   \<and> negative_space (st_of (receive_file bsize env options state fs client request))
     = negative_space state
   \<and> files (st_of (receive_file bsize env options state fs client request)) = files state"
  unfolding receive_file_def create_tcp_socket_def receive_end_def Let_def
  by (simp split: sum.split prod.split)

lemma receive_file_not_Returned:
  "receive_file bsize env options state fs client request \<noteq> Returned state' fs' acts"
  unfolding receive_file_def create_tcp_socket_def receive_end_def Let_def
  by (simp split: sum.split prod.split)

text \<open>
  What the receiving side does keep. The loop never writes more than the declared size,
  and fewer bytes written means the transfer is flagged (\<open>receive_loop_declared\<close>); a
  short write sets the error flag at once (\<open>receive_loop_short_write\<close>). A flagged
  transfer whose \<^verbatim>\<open>close\<close> and \<^verbatim>\<open>unlink\<close> succeed ends with the backing file gone.
  No outcome gives space back: \<^verbatim>\<open>available_space\<close> stays at the value the admission
  left, whatever the fork and the transfer did.
\<close>

lemma receive_file_flagged_deleted:
  assumes "tcp_socket env = Inr port" "select_result env \<noteq> 0" "0 \<le> accept_result env"
    "0 \<le> open_result env" "0 \<le> close_result env" "0 \<le> unlink_result env"
    and run: "receive_loop bsize env 0 (sint (param request))
             (sys_read bsize (read_results env 0)) False 0 = (remaining, read_len, err, written)"
    and flagged: "err \<or> read_len < 0 \<or> remaining \<noteq> 0"
  shows "fs_of (receive_file bsize env options state fs client request)
           (c_str (SHRD_FLDR options @ ''/'' @ data request)) = None"
  using flagged assms(6) unfolding receive_file_connected [OF assms(1-5)] run by simp

lemma upload_charge_kept:
  assumes acc: "\<not> (available_space state < param request
           \<or> data request \<in> set (map filename (files state))
           \<or> CHR ''/'' \<in> set (data request) \<or> data request = [])"
  shows "available_space (st_of (upload bsize fk env options state fs client request))
          = available_space state - param request"
  unfolding upload_accept [OF acc]
  by (cases fk) (simp_all add: receive_file_ledger)

text \<open>
  A transfer that was connected and not flagged leaves a backing file of exactly the
  declared size, when no file of that name was there before.
\<close>

lemma receive_file_complete:
  assumes "tcp_socket env = Inr port" "select_result env \<noteq> 0" "0 \<le> accept_result env"
    "0 \<le> open_result env" "0 \<le> close_result env"
    and "fs (c_str (SHRD_FLDR options @ ''/'' @ data request)) = None"
    and "fs_of (receive_file bsize env options state fs client request)
           (c_str (SHRD_FLDR options @ ''/'' @ data request)) = Some sz"
    and "0 \<le> unlink_result env"
  shows "sz = param request"
proof -
  obtain remaining read_len err written where
    run: "receive_loop bsize env 0 (sint (param request))
             (sys_read bsize (read_results env 0)) False 0 = (remaining, read_len, err, written)"
    by (metis prod_cases4)
  have ok: "\<not> (err \<or> read_len < 0 \<or> remaining \<noteq> 0)"
    using assms(7,8) unfolding receive_file_connected [OF assms(1-5)] run
    by (auto split: if_splits)
  then have "written = uint (param request)"
    using receive_loop_declared [where bsize = bsize and env = env and declared = "param request"
        and read_len = "sys_read bsize (read_results env 0)"] run by simp
  then show ?thesis
    using assms(6,7) ok unfolding receive_file_connected [OF assms(1-5)] run
    by (simp add: write_file_def)
qed

text \<open>
  A client that sends 3 of the 5 declared bytes and ends the stream, with every system
  call succeeding: the transfer is flagged, the backing file is unlinked and the process
  exits with \<^verbatim>\<open>available_space\<close> as the admission left it.
\<close>

lemma receive_file_short_stream:
  "receive_file 512
     \<lparr>tcp_socket = Inr 40000, select_result = 1, accept_result = 4, open_result = 5,
      read_results = (\<lambda>k. if k = 0 then 3 else 0), write_results = (\<lambda>k. 100),
      close_result = 0, unlink_result = 0\<rparr>
     \<lparr>MCAST_ADDR = ''239.10.11.12'', CMD_PORT = 6543, MAX_SPACE = 200,
      SHRD_FLDR = ''shared'', TIMEOUT = 5\<rparr>
     \<lparr>available_space = 95, negative_space = 0, socket = 3,
      files = [''shared/a'', ''shared/b''], open_files = {}\<rparr>
     [''shared/a'' \<mapsto> 100] (Sockaddr_in 1 2)
     \<lparr>cmd = ''ADD'', cmd_seq = 7, data = ''b'', param = 5\<rparr>
   = Exited \<lparr>available_space = 95, negative_space = 0, socket = 3,
              files = [''shared/a'', ''shared/b''], open_files = {}\<rparr>
       [''shared/a'' \<mapsto> 100]
       [Send_complex (Sockaddr_in 1 2) ''CAN_ADD'' [] 7 40000]"
  by (simp add: receive_file_def receive_end_def create_tcp_socket_def write_file_def
        receive_loop.simps c_str_def Let_def sys_read_def sys_write_def ssize_t_id)

text \<open>
  Claim C5 fails on the code in its last part: on failure the partially written backing
  file is to be deleted. The upload declares 5 bytes under the name \<^verbatim>\<open>b\<close>; the client
  sends 3 bytes and ends the stream, so the loop ends with 2 bytes remaining and line 426
  flags the transfer. \<^verbatim>\<open>close\<close> of the client connection then fails, and the exception
  of line 430 leaves \<^verbatim>\<open>receive_file\<close> before the \<^verbatim>\<open>unlink\<close> of line 435: the backing
  file of 3 bytes stays in the shared folder, and its name stays in \<^verbatim>\<open>open_files\<close>.
\<close>

theorem receive_file_close_leaves_file:
  "receive_loop 512
     \<lparr>tcp_socket = Inr 40000, select_result = 1, accept_result = 4, open_result = 5,
      read_results = (\<lambda>k. if k = 0 then 3 else 0), write_results = (\<lambda>k. 100),
      close_result = - 1, unlink_result = 0\<rparr> 0 5 3 False 0 = (2, 0, False, 3)
   \<and> receive_file 512
     \<lparr>tcp_socket = Inr 40000, select_result = 1, accept_result = 4, open_result = 5,
      read_results = (\<lambda>k. if k = 0 then 3 else 0), write_results = (\<lambda>k. 100),
      close_result = - 1, unlink_result = 0\<rparr>
     \<lparr>MCAST_ADDR = ''239.10.11.12'', CMD_PORT = 6543, MAX_SPACE = 200,
      SHRD_FLDR = ''shared'', TIMEOUT = 5\<rparr>
     \<lparr>available_space = 95, negative_space = 0, socket = 3,
      files = [''shared/a'', ''shared/b''], open_files = {}\<rparr>
     [''shared/a'' \<mapsto> 100] (Sockaddr_in 1 2)
     \<lparr>cmd = ''ADD'', cmd_seq = 7, data = ''b'', param = 5\<rparr>
   = Thrown (Runtime_error ''close'')
       \<lparr>available_space = 95, negative_space = 0, socket = 3,
        files = [''shared/a'', ''shared/b''], open_files = {''shared/b''}\<rparr>
       [''shared/a'' \<mapsto> 100, ''shared/b'' \<mapsto> 3]
       [Send_complex (Sockaddr_in 1 2) ''CAN_ADD'' [] 7 40000]"
  by (simp add: receive_file_def create_tcp_socket_def write_file_def receive_loop.simps
        c_str_def Let_def sys_read_def sys_write_def ssize_t_id)

text \<open>
  The same client with \<^verbatim>\<open>close\<close> succeeding and \<^verbatim>\<open>unlink\<close> failing: line 435 does not
  look at the result, the process exits, and the backing file of 3 bytes stays.
\<close>

lemma receive_file_unlink_fails:
  "receive_file 512
     \<lparr>tcp_socket = Inr 40000, select_result = 1, accept_result = 4, open_result = 5,
      read_results = (\<lambda>k. if k = 0 then 3 else 0), write_results = (\<lambda>k. 100),
      close_result = 0, unlink_result = - 1\<rparr>
     \<lparr>MCAST_ADDR = ''239.10.11.12'', CMD_PORT = 6543, MAX_SPACE = 200,
      SHRD_FLDR = ''shared'', TIMEOUT = 5\<rparr>
     \<lparr>available_space = 95, negative_space = 0, socket = 3,
      files = [''shared/a'', ''shared/b''], open_files = {}\<rparr>
     [''shared/a'' \<mapsto> 100] (Sockaddr_in 1 2)
     \<lparr>cmd = ''ADD'', cmd_seq = 7, data = ''b'', param = 5\<rparr>
   = Exited \<lparr>available_space = 95, negative_space = 0, socket = 3,
              files = [''shared/a'', ''shared/b''], open_files = {}\<rparr>
       [''shared/a'' \<mapsto> 100, ''shared/b'' \<mapsto> 3]
       [Send_complex (Sockaddr_in 1 2) ''CAN_ADD'' [] 7 40000]"
  by (simp add: receive_file_def receive_end_def create_tcp_socket_def write_file_def
        receive_loop.simps c_str_def Let_def sys_read_def sys_write_def ssize_t_id)

section \<open>Accepted uploads\<close>

text \<open>
  Claim C6. An accepted upload of \<open>S\<close> bytes under the name \<open>F\<close> takes exactly \<open>S\<close>
  from \<^verbatim>\<open>available_space\<close> (without wrap-around), leaves \<^verbatim>\<open>negative_space\<close> alone
  and appends \<open>F\<close> to the catalog before the fork: the dispatcher returns with that
  state, the forked transfer starts from it, and any later upload of the same name in
  that state is rejected.
\<close>

theorem upload_accepted_effect:
  fixes state :: server_state and request :: cmplx_cmd and options :: server_options
  defines "state' \<equiv> state\<lparr>available_space := available_space state - param request,
                            files := files state @ [SHRD_FLDR options @ ''/'' @ data request]\<rparr>"
  assumes acc: "\<not> (available_space state < param request
         \<or> data request \<in> set (map filename (files state))
         \<or> CHR ''/'' \<in> set (data request) \<or> data request = [])"
  shows "upload bsize Fork_parent env options state fs client request = Returned state' fs []
     \<and> upload bsize Fork_child env options state fs client request
         = receive_file bsize env options state' fs client request
     \<and> unat (available_space state') + unat (param request) = unat (available_space state)
     \<and> negative_space state' = negative_space state
     \<and> data request \<in> set (map filename (files state'))
     \<and> (\<forall>request2. data request2 = data request \<longrightarrow>
           upload bsize2 fk2 env2 options2 state' fs2 client2 request2
             = Returned state' fs2
                 [Send_simple client2 ''NO_WAY'' (data request2) (cmd_seq request2)])"
proof -
  from acc have le: "param request \<le> available_space state"
    and nosep: "CHR ''/'' \<notin> set (data request)" by auto
  have mem: "data request \<in> set (map filename (files state'))"
    using filename_append_name [OF nosep, of "SHRD_FLDR options"] by (simp add: state'_def)
  have "unat (available_space state') = unat (available_space state) - unat (param request)"
    using le by (simp add: state'_def unat_sub)
  moreover have "unat (param request) \<le> unat (available_space state)"
    using le by (simp add: word_le_nat_alt)
  ultimately have sz: "unat (available_space state') + unat (param request)
      = unat (available_space state)" by simp
  have again: "upload bsize2 fk2 env2 options2 state' fs2 client2 request2
             = Returned state' fs2
                 [Send_simple client2 ''NO_WAY'' (data request2) (cmd_seq request2)]"
    if "data request2 = data request" for request2
    using mem that by (intro upload_reject) simp
  show ?thesis
    using upload_accept [OF acc, of bsize Fork_parent env options fs client]
      upload_accept [OF acc, of bsize Fork_child env options fs client] sz mem again
    by (simp add: state'_def)
qed

theorem upload_accepted_effect_witness:
  "upload 512 Fork_parent
     \<lparr>tcp_socket = Inr 40000, select_result = 1, accept_result = 4, open_result = 5,
      read_results = (\<lambda>k. 0), write_results = (\<lambda>k. 0), close_result = 0, unlink_result = 0\<rparr>
     \<lparr>MCAST_ADDR = ''239.10.11.12'', CMD_PORT = 6543, MAX_SPACE = 200,
      SHRD_FLDR = ''shared'', TIMEOUT = 5\<rparr>
     \<lparr>available_space = 100, negative_space = 0, socket = 3, files = [''shared/a''],
      open_files = {}\<rparr>
     [''shared/a'' \<mapsto> 100] (Sockaddr_in 1 2)
     \<lparr>cmd = ''ADD'', cmd_seq = 7, data = ''b'', param = 40\<rparr>
   = Returned \<lparr>available_space = 60, negative_space = 0, socket = 3,
                files = [''shared/a'', ''shared/b''], open_files = {}\<rparr>
       [''shared/a'' \<mapsto> 100] []"
  using upload_accepted_effect [where request = "\<lparr>cmd = ''ADD'', cmd_seq = 7, data = ''b'', param = 40\<rparr>"
      and state = "\<lparr>available_space = 100, negative_space = 0, socket = 3,
                    files = [''shared/a''], open_files = {}\<rparr>"
      and bsize = 512 and fs = "[''shared/a'' \<mapsto> 100]"
      and client = "Sockaddr_in 1 2"
      and options = "\<lparr>MCAST_ADDR = ''239.10.11.12'', CMD_PORT = 6543, MAX_SPACE = 200,
                      SHRD_FLDR = ''shared'', TIMEOUT = 5\<rparr>"
      and env = "\<lparr>tcp_socket = Inr 40000, select_result = 1, accept_result = 4,
                  open_result = 5, read_results = (\<lambda>k. 0), write_results = (\<lambda>k. 0),
                  close_result = 0, unlink_result = 0\<rparr>"]
  by (simp add: filename_def)

section \<open>Fetch\<close>

lemma send_file_frame:
  "st_of (send_file bsize env options state fs client request file) = state
   \<and> fs_of (send_file bsize env options state fs client request file) = fs"
  unfolding send_file_def create_tcp_socket_def Let_def
  by (simp split: sum.split option.split)

lemma fetch_state: "st_of (fetch bsize fk env options state fs client request) = state"
  unfolding fetch_def by (cases fk) (simp_all add: send_file_frame split: option.split)

section \<open>The ledger in reachable states\<close>

lemma index_entry_debt:
  "debt_excludes_space state \<Longrightarrow> debt_excludes_space (index_entry fs state p)"
  unfolding debt_excludes_space_def index_entry_def Let_def
  by (auto split: option.split simp: word_gt_0 not_less)

lemma index_loop_debt:
  "debt_excludes_space state \<Longrightarrow> debt_excludes_space (index_loop fs entries state)"
  by (induction entries arbitrary: state) (auto intro: index_entry_debt)

lemma refund_debt:
  "debt_excludes_space state \<Longrightarrow> debt_excludes_space (refund state sz)"
  unfolding debt_excludes_space_def refund_def
  by (auto simp: word_gt_0)

lemma remove_Returned:
  assumes "remove state fs client request = Returned state' fs' acts"
  shows "state' = state
     \<or> (\<exists>it sz. data request \<noteq> [] \<and> find_file (data request) (files state) = Some it
           \<and> fs it = Some sz
           \<and> state' = (refund state sz)\<lparr>files := erase_file (data request) (files state)\<rparr>)"
  using assms unfolding remove_def check_data_not_empty_def Let_def
  by (auto split: if_splits option.splits)

lemma upload_Returned:
  assumes "upload bsize fk env options state fs client request = Returned state' fs' acts"
  shows "state' = state
     \<or> (\<not> (available_space state < param request
            \<or> data request \<in> set (map filename (files state))
            \<or> CHR ''/'' \<in> set (data request) \<or> data request = [])
        \<and> state' = state\<lparr>available_space := available_space state - param request,
                   files := files state @ [SHRD_FLDR options @ ''/'' @ data request]\<rparr>)"
proof (cases "available_space state < param request
            \<or> data request \<in> set (map filename (files state))
            \<or> CHR ''/'' \<in> set (data request) \<or> data request = []")
  case True
  from upload_reject [OF True] assms show ?thesis by simp
next
  case False
  from upload_accept [OF False, of bsize fk env options fs client] assms show ?thesis
    using False by (cases fk) (auto simp: receive_file_not_Returned)
qed

lemma debt_excludes_space_files [simp]:
  "debt_excludes_space (state\<lparr>files := fls\<rparr>) = debt_excludes_space state"
  by (simp add: debt_excludes_space_def)

lemma reachable_debt: "reachable options state \<Longrightarrow> debt_excludes_space state"
proof (induction rule: reachable.induct)
  case (startup entries fs state)
  have "debt_excludes_space (initial_state\<lparr>available_space := MAX_SPACE options\<rparr>)"
    by (simp add: debt_excludes_space_def initial_state_def)
  from index_loop_debt [OF this, of fs entries] startup show ?case
    by (simp add: index_files_def)
next
  case (discovered state fs client simple state' fs' acts)
  then show ?case by (auto simp: discover_def check_data_empty_def split: if_splits)
next
  case (removed state fs client simple state' fs' acts)
  then show ?case using remove_Returned [OF removed.hyps(2)] by (auto intro: refund_debt)
next
  case (listed state lim fs client simple state' fs' acts)
  then show ?case by (simp add: list_def)
next
  case (fetched state bsize fk env fs client simple state' fs' acts)
  then show ?case using fetch_state [of bsize fk env options state fs client simple] by simp
next
  case (uploaded state bsize fk env fs client complex state' fs' acts)
  from upload_Returned [OF uploaded.hyps(2)] uploaded.IH show ?case
    unfolding debt_excludes_space_def
    by (auto simp: not_less word_le_nat_alt unat_eq_zero)
qed

lemma book_find_files:
  "book_find target book = Some (it, reserved) \<Longrightarrow> find_file target (map fst book) = Some it"
  by (induction book) (auto split: if_splits)

lemma book_erase_files: "map fst (book_erase target book) = erase_file target (map fst book)"
  by (induction book) auto

lemma book_erase_sum:
  "book_find target book = Some (it, reserved) \<Longrightarrow>
     sum_list (map snd (book_erase target book)) + reserved = sum_list (map snd book)"
  by (induction book) (auto split: if_splits)

lemma index_entry_ledger:
  assumes ok: "ledger_ok quota state book"
    and debt: "unat (negative_space state) \<le> sum_list (map snd book)"
    and fit: "unat quota + sum_list (map snd book) + unat sz < 2 ^ 64"
    and reg: "fs p = Some sz"
  shows "ledger_ok quota (index_entry fs state p) (book @ [(p, unat sz)])
     \<and> unat (negative_space (index_entry fs state p)) \<le> sum_list (map snd book) + unat sz"
proof (cases "available_space state < sz")
  case True
  then have le: "available_space state \<le> sz" by simp
  have d: "unat (sz - available_space state) = unat sz - unat (available_space state)"
    using le by (simp add: unat_sub)
  have lt: "unat (available_space state) < unat sz"
    using True by (simp add: word_less_nat_alt)
  have "unat (negative_space state) + unat (sz - available_space state) < 2 ^ 64"
    using d debt fit by linarith
  then have n: "unat (negative_space state + (sz - available_space state))
      = unat (negative_space state) + (unat sz - unat (available_space state))"
    using d by (simp add: unat_add_lem [THEN iffD1])
  show ?thesis
    using True ok debt reg n lt
    unfolding ledger_ok_def index_entry_def debt_excludes_space_def Let_def
    by (auto)
next
  case False
  then have le: "sz \<le> available_space state" by simp
  have d: "unat (available_space state - sz) = unat (available_space state) - unat sz"
    using le by (simp add: unat_sub)
  have ge: "unat sz \<le> unat (available_space state)"
    using le by (simp add: word_le_nat_alt)
  have z: "available_space state = 0 \<Longrightarrow> sz = 0"
    using le by simp
  show ?thesis
    using False ok debt reg d ge z
    unfolding ledger_ok_def index_entry_def debt_excludes_space_def Let_def
    by (auto)
qed

lemma index_loop_ledger:
  assumes "ledger_ok quota state book"
    and "unat (negative_space state) \<le> sum_list (map snd book)"
    and "unat quota + sum_list (map snd book) + sum_list (map snd (index_book fs entries)) < 2 ^ 64"
  shows "ledger_ok quota (index_loop fs entries state) (book @ index_book fs entries)"
  using assms
proof (induction entries arbitrary: state book)
  case Nil
  then show ?case by simp
next
  case (Cons p entries)
  show ?case
  proof (cases "fs p")
    case None
    then have "index_entry fs state p = state" by (simp add: index_entry_def)
    with None Cons show ?thesis by simp
  next
    case (Some sz)
    have fit: "unat quota + sum_list (map snd book) + unat sz < 2 ^ 64"
      using Cons.prems(3) Some by simp
    have "ledger_ok quota (index_entry fs state p) (book @ [(p, unat sz)])
       \<and> unat (negative_space (index_entry fs state p)) \<le> sum_list (map snd book) + unat sz"
      using Cons.prems(1,2) fit Some
      by (rule index_entry_ledger [where fs = fs and p = p and sz = sz])
    then have a: "ledger_ok quota (index_entry fs state p) (book @ [(p, unat sz)])"
      and b: "unat (negative_space (index_entry fs state p))
                \<le> sum_list (map snd (book @ [(p, unat sz)]))" by simp_all
    have c: "unat quota + sum_list (map snd (book @ [(p, unat sz)]))
               + sum_list (map snd (index_book fs entries)) < 2 ^ 64"
      using Cons.prems(3) Some by simp
    from Cons.IH [OF a b c] Some show ?thesis by simp
  qed
qed

lemma refund_ledger:
  assumes ok: "ledger_ok quota state book"
    and found: "book_find target book = Some (it, reserved)"
    and le: "unat sz \<le> reserved"
  shows "ledger_ok quota ((refund state sz)\<lparr>files := erase_file target (files state)\<rparr>)
           (book_erase target book)"
proof -
  from ok have fl: "map fst book = files state"
    and sum: "unat (available_space state) + sum_list (map snd book)
         \<le> unat quota + unat (negative_space state)"
    and dx: "debt_excludes_space state" by (simp_all add: ledger_ok_def)
  have part: "sum_list (map snd (book_erase target book)) + reserved = sum_list (map snd book)"
    using book_erase_sum [OF found] .
  have q: "unat quota < 2 ^ 64" using unsigned_less [of quota, where 'a = nat] by simp
  have files: "map fst (book_erase target book) = erase_file target (files state)"
    using book_erase_files [of target book] fl by simp
  have dx': "debt_excludes_space ((refund state sz)\<lparr>files := erase_file target (files state)\<rparr>)"
    using refund_debt [OF dx] by simp
  have num: "unat (available_space (refund state sz)) + sum_list (map snd (book_erase target book))
      \<le> unat quota + unat (negative_space (refund state sz))"
  proof (cases "negative_space state = 0")
    case True
    have "unat (available_space state) + unat sz < 2 ^ 64"
      using sum part le q True by simp
    then have "unat (available_space state + sz) = unat (available_space state) + unat sz"
      by (simp add: unat_add_lem [THEN iffD1])
    then show ?thesis using True sum part le by (simp add: refund_def)
  next
    case False
    then have a0: "available_space state = 0"
      using dx by (simp add: debt_excludes_space_def)
    show ?thesis
    proof (cases "sz < negative_space state")
      case True
      then have "sz \<le> negative_space state" by simp
      then have "unat (negative_space state - sz) = unat (negative_space state) - unat sz"
        by (rule unat_sub)
      moreover have "unat sz < unat (negative_space state)"
        using True by (simp add: word_less_nat_alt)
      ultimately have "unat (negative_space state - sz) = unat (negative_space state) - unat sz"
        "unat sz < unat (negative_space state)" by simp_all
      then show ?thesis
        using True False sum part le a0 by (simp add: refund_def word_gt_0)
    next
      case nl: False
      then have "negative_space state \<le> sz" by simp
      then have "unat (sz - negative_space state) = unat sz - unat (negative_space state)"
        "unat (negative_space state) \<le> unat sz"
        by (simp_all add: unat_sub word_le_nat_alt)
      then show ?thesis
        using nl False sum part le a0 by (simp add: refund_def word_gt_0)
    qed
  qed
  from files num dx' show ?thesis by (simp add: ledger_ok_def)
qed

lemma booked_ledger: "booked options state book \<Longrightarrow> ledger_ok (MAX_SPACE options) state book"
proof (induction rule: booked.induct)
  case (booked_startup entries fs state)
  have "ledger_ok (MAX_SPACE options) (initial_state\<lparr>available_space := MAX_SPACE options\<rparr>) []"
    by (simp add: ledger_ok_def initial_state_def debt_excludes_space_def)
  from index_loop_ledger [OF this, of fs entries] booked_startup show ?case
    by (simp add: index_files_def initial_state_def)
next
  case (booked_removed state book fs client simple state' fs' acts it reserved sz)
  from booked_removed.IH have fl: "map fst book = files state" by (simp add: ledger_ok_def)
  have "find_file (data simple) (files state) = Some it"
    using book_find_files [OF booked_removed.hyps(4)] fl by simp
  with booked_removed.hyps(2,3,5)
  have "state' = (refund state sz)\<lparr>files := erase_file (data simple) (files state)\<rparr>"
    by (simp add: remove_def check_data_not_empty_def)
  with refund_ledger [OF booked_removed.IH booked_removed.hyps(4,6)] show ?case by simp
next
  case (booked_uploaded state book bsize fk env fs client complex state' fs' acts)
  from upload_Returned [OF booked_uploaded.hyps(2)] booked_uploaded.hyps(3)
  have st: "state' = state\<lparr>available_space := available_space state - param complex,
                   files := files state @ [SHRD_FLDR options @ ''/'' @ data complex]\<rparr>
            \<or> state' = state" by blast
  have neq: "state' \<noteq> state"
    using upload_accept [OF booked_uploaded.hyps(3), of bsize fk env options fs client]
      booked_uploaded.hyps(2)
    by (cases fk) (auto simp: receive_file_not_Returned dest: arg_cong [where f = files])
  from booked_uploaded.hyps(3) have le: "param complex \<le> available_space state" by auto
  then have d: "unat (available_space state - param complex)
      = unat (available_space state) - unat (param complex)"
    "unat (param complex) \<le> unat (available_space state)"
    by (simp_all add: unat_sub word_le_nat_alt)
  have z: "available_space state = 0 \<Longrightarrow> param complex = 0" using le by simp
  from st neq booked_uploaded.IH d z show ?case
    by (auto simp: ledger_ok_def debt_excludes_space_def)
qed

lemma booked_reachable: "booked options state book \<Longrightarrow> reachable options state"
  by (induction rule: booked.induct) (auto intro: reachable.intros)

text \<open>
  Claim C7, as the code has it. In every state reached from startup indexing by command
  handlers, \<^verbatim>\<open>negative_space\<close> and \<^verbatim>\<open>available_space\<close> are never both positive:
  debt implies that no space is available. \<^verbatim>\<open>available_space\<close> stays within the quota
  \<^verbatim>\<open>MAX_SPACE\<close> in the states reached while the quota and the indexed sizes add up to
  less than \<open>2 ^ 64\<close> and every removed file is, when removed, no larger than the size
  it was indexed with or the size declared at its upload.
\<close>

theorem ledger_invariant:
  "(reachable options state \<longrightarrow>
      (negative_space state \<noteq> 0 \<longrightarrow> available_space state = 0))
   \<and> (booked options state book \<longrightarrow>
        reachable options state \<and> available_space state \<le> MAX_SPACE options)"
proof -
  have one: "negative_space state \<noteq> 0 \<longrightarrow> available_space state = 0"
    if "reachable options state"
    using reachable_debt [OF that] by (simp add: debt_excludes_space_def)
  have two: "available_space state \<le> MAX_SPACE options" if "booked options state book"
  proof (cases "negative_space state = 0")
    case True
    with booked_ledger [OF that] show ?thesis
      by (simp add: ledger_ok_def word_le_nat_alt)
  next
    case False
    with booked_ledger [OF that] show ?thesis
      by (simp add: ledger_ok_def debt_excludes_space_def)
  qed
  from one two booked_reachable show ?thesis by blast
qed

theorem ledger_invariant_witness:
  "booked \<lparr>MCAST_ADDR = ''239.10.11.12'', CMD_PORT = 6543, MAX_SPACE = 100,
           SHRD_FLDR = ''shared'', TIMEOUT = 5\<rparr>
     \<lparr>available_space = 60, negative_space = 0, socket = 0, files = [''shared/b''],
      open_files = {}\<rparr> [(''shared/b'', 40)]
   \<and> reachable \<lparr>MCAST_ADDR = ''239.10.11.12'', CMD_PORT = 6543, MAX_SPACE = 100,
           SHRD_FLDR = ''shared'', TIMEOUT = 5\<rparr>
     \<lparr>available_space = 60, negative_space = 0, socket = 0, files = [''shared/b''],
      open_files = {}\<rparr>
   \<and> available_space \<lparr>available_space = 60, negative_space = 0, socket = 0,
        files = [''shared/b''], open_files = {}\<rparr>
      \<le> MAX_SPACE \<lparr>MCAST_ADDR = ''239.10.11.12'', CMD_PORT = 6543, MAX_SPACE = 100,
           SHRD_FLDR = ''shared'', TIMEOUT = 5\<rparr>"
proof -
  let ?options = "\<lparr>MCAST_ADDR = ''239.10.11.12'', CMD_PORT = 6543, MAX_SPACE = 100,
              SHRD_FLDR = ''shared'', TIMEOUT = 5\<rparr>"
  let ?fs = "[''shared/a'' \<mapsto> 150] :: filesystem"
  let ?indexed = "\<lparr>available_space = 0, negative_space = 50, socket = 0,
                   files = [''shared/a''], open_files = {}\<rparr>"
  let ?removed = "\<lparr>available_space = 100, negative_space = 0, socket = 0,
                   files = [], open_files = {}\<rparr>"
  let ?uploaded = "\<lparr>available_space = 60, negative_space = 0, socket = 0,
                   files = [''shared/b''], open_files = {}\<rparr>"
  let ?env = "\<lparr>tcp_socket = Inr 40000, select_result = 1, accept_result = 4, open_result = 5,
      read_results = (\<lambda>k. 0), write_results = (\<lambda>k. 0), close_result = 0, unlink_result = 0\<rparr>"
  have "index_files ?options (Some [''shared/a'']) ?fs initial_state = Inr ?indexed"
    by (simp add: index_files_def index_entry_def initial_state_def)
  moreover have "unat (MAX_SPACE ?options) + sum_list (map snd (index_book ?fs [''shared/a'']))
      < 2 ^ 64" by simp
  ultimately have "booked ?options ?indexed (index_book ?fs [''shared/a''])"
    by (rule booked_startup)
  then have b1: "booked ?options ?indexed [(''shared/a'', 150)]" by simp
  have "remove ?indexed ?fs (Sockaddr_in 1 2) \<lparr>cmd = ''DEL'', cmd_seq = 7, data = ''a''\<rparr>
        = Returned ?removed Map.empty []"
    by (simp add: remove_def check_data_not_empty_def refund_def filename_def)
  from booked_removed [OF b1 this, of "''shared/a''" 150 150]
  have b2: "booked ?options ?removed []" by (simp add: filename_def)
  have "upload 512 Fork_parent ?env ?options ?removed Map.empty (Sockaddr_in 1 2)
          \<lparr>cmd = ''ADD'', cmd_seq = 8, data = ''b'', param = 40\<rparr>
        = Returned ?uploaded Map.empty []"
    by (simp add: upload_def)
  from booked_uploaded [OF b2 this]
  have b3: "booked ?options ?uploaded [(''shared/b'', 40)]" by simp
  from b3 ledger_invariant [of ?options ?uploaded "[(''shared/b'', 40)]"] show ?thesis
    by blast
qed

text \<open>
  The claim C7 as stated fails in its second half. With a quota of 100 and one startup
  file of 10 bytes, indexing leaves 90 bytes available; when the file has grown to 50
  bytes by the time it is removed, \<^verbatim>\<open>remove\<close> refunds the 50 bytes it finds and
  \<^verbatim>\<open>available_space\<close> is 140, above the quota.
\<close>

theorem quota_exceeded_counterexample:
  "reachable \<lparr>MCAST_ADDR = ''239.10.11.12'', CMD_PORT = 6543, MAX_SPACE = 100,
              SHRD_FLDR = ''shared'', TIMEOUT = 5\<rparr>
     \<lparr>available_space = 140, negative_space = 0, socket = 0, files = [], open_files = {}\<rparr>
   \<and> \<not> available_space
          \<lparr>available_space = 140, negative_space = 0, socket = 0, files = [], open_files = {}\<rparr>
        \<le> MAX_SPACE \<lparr>MCAST_ADDR = ''239.10.11.12'', CMD_PORT = 6543, MAX_SPACE = 100,
              SHRD_FLDR = ''shared'', TIMEOUT = 5\<rparr>"
proof -
  let ?options = "\<lparr>MCAST_ADDR = ''239.10.11.12'', CMD_PORT = 6543, MAX_SPACE = 100,
              SHRD_FLDR = ''shared'', TIMEOUT = 5\<rparr>"
  let ?indexed = "\<lparr>available_space = 90, negative_space = 0, socket = 0,
                   files = [''shared/a''], open_files = {}\<rparr>"
  have "index_files ?options (Some [''shared/a'']) [''shared/a'' \<mapsto> 10] initial_state
          = Inr ?indexed"
    by (simp add: index_files_def index_entry_def initial_state_def)
  then have start: "reachable ?options ?indexed"
    by (rule reachable.startup)
  have "remove ?indexed [''shared/a'' \<mapsto> 50] (Sockaddr_in 1 2)
          \<lparr>cmd = ''DEL'', cmd_seq = 7, data = ''a''\<rparr>
        = Returned \<lparr>available_space = 140, negative_space = 0, socket = 0, files = [],
                     open_files = {}\<rparr> Map.empty []"
    by (simp add: remove_def check_data_not_empty_def refund_def filename_def)
  with start have "reachable ?options
     \<lparr>available_space = 140, negative_space = 0, socket = 0, files = [], open_files = {}\<rparr>"
    by (rule reachable.removed)
  then show ?thesis by simp
qed

text \<open>
  The same without any change on disk, by wrap-around: with a quota of 0 and three
  startup files of \<open>2 ^ 63 - 1\<close> bytes each, the debt wraps to \<open>2 ^ 63 - 3\<close> at
  indexing, and removing the first file leaves 2 bytes available.
\<close>

lemma quota_exceeded_by_wrap:
  "reachable \<lparr>MCAST_ADDR = ''239.10.11.12'', CMD_PORT = 6543, MAX_SPACE = 0,
              SHRD_FLDR = ''shared'', TIMEOUT = 5\<rparr>
     \<lparr>available_space = 2, negative_space = 0, socket = 0,
      files = [''shared/b'', ''shared/c''], open_files = {}\<rparr>"
proof -
  let ?options = "\<lparr>MCAST_ADDR = ''239.10.11.12'', CMD_PORT = 6543, MAX_SPACE = 0,
              SHRD_FLDR = ''shared'', TIMEOUT = 5\<rparr>"
  let ?fs = "[''shared/a'' \<mapsto> 9223372036854775807, ''shared/b'' \<mapsto> 9223372036854775807,
              ''shared/c'' \<mapsto> 9223372036854775807] :: filesystem"
  let ?indexed = "\<lparr>available_space = 0, negative_space = 9223372036854775805, socket = 0,
                   files = [''shared/a'', ''shared/b'', ''shared/c''], open_files = {}\<rparr>"
  have "index_files ?options (Some [''shared/a'', ''shared/b'', ''shared/c'']) ?fs initial_state
          = Inr ?indexed"
    by (simp add: index_files_def index_entry_def initial_state_def)
  then have start: "reachable ?options ?indexed"
    by (rule reachable.startup)
  have "remove ?indexed ?fs (Sockaddr_in 1 2) \<lparr>cmd = ''DEL'', cmd_seq = 7, data = ''a''\<rparr>
        = Returned \<lparr>available_space = 2, negative_space = 0, socket = 0,
                     files = [''shared/b'', ''shared/c''], open_files = {}\<rparr>
            (?fs(''shared/a'' := None)) []"
    by (simp add: remove_def check_data_not_empty_def refund_def filename_def)
  with start show ?thesis
    by (rule reachable.removed)
qed

section \<open>Fetch leaves the state alone\<close>

text \<open>
  Claim C8. A fetch request leaves the server state (\<^verbatim>\<open>available_space\<close>,
  \<^verbatim>\<open>negative_space\<close>, the catalog) and the shared folder as they were, whatever the
  outcome: name unknown, fork failed, the dispatcher returning after the fork, or the
  forked transfer ending by timeout, completion or exception. When the name is not in the
  catalog the handler calls \<^verbatim>\<open>error_message\<close> with the address of the requester and
  returns.
\<close>

theorem fetch_frame:
  "st_of (fetch bsize fk env options state fs client request) = state
   \<and> fs_of (fetch bsize fk env options state fs client request) = fs
   \<and> (data request \<notin> set (map filename (files state)) \<longrightarrow>
        fetch bsize fk env options state fs client request
          = Returned state fs [Error_message client ''Invalid file name.''])"
proof (intro conjI impI)
  show "st_of (fetch bsize fk env options state fs client request) = state"
    unfolding fetch_def by (cases fk) (simp_all add: send_file_frame split: option.split)
  show "fs_of (fetch bsize fk env options state fs client request) = fs"
    unfolding fetch_def by (cases fk) (simp_all add: send_file_frame split: option.split)
  assume "data request \<notin> set (map filename (files state))"
  then have "find_file (data request) (files state) = None"
    by (rule find_file_unknown)
  then show "fetch bsize fk env options state fs client request
          = Returned state fs [Error_message client ''Invalid file name.'']"
    unfolding fetch_def by simp
qed

theorem fetch_frame_witness:
  "fetch 512 Fork_parent
     \<lparr>tcp_socket = Inr 40000, select_result = 1, accept_result = 4, open_result = 5,
      read_results = (\<lambda>k. 0), write_results = (\<lambda>k. 0), close_result = 0, unlink_result = 0\<rparr>
     \<lparr>MCAST_ADDR = ''239.10.11.12'', CMD_PORT = 6543, MAX_SPACE = 100,
      SHRD_FLDR = ''shared'', TIMEOUT = 5\<rparr>
     \<lparr>available_space = 10, negative_space = 0, socket = 3, files = [''shared/a''],
      open_files = {}\<rparr>
     [''shared/a'' \<mapsto> 90] (Sockaddr_in 1 2) \<lparr>cmd = ''GET'', cmd_seq = 7, data = ''zzz''\<rparr>
   = Returned \<lparr>available_space = 10, negative_space = 0, socket = 3, files = [''shared/a''],
      open_files = {}\<rparr> [''shared/a'' \<mapsto> 90]
      [Error_message (Sockaddr_in 1 2) ''Invalid file name.'']"
  using fetch_frame [where request = "\<lparr>cmd = ''GET'', cmd_seq = 7, data = ''zzz''\<rparr>"
      and state = "\<lparr>available_space = 10, negative_space = 0, socket = 3,
                    files = [''shared/a''], open_files = {}\<rparr>"
      and bsize = 512 and fk = Fork_parent and fs = "[''shared/a'' \<mapsto> 90]"
      and client = "Sockaddr_in 1 2"
      and options = "\<lparr>MCAST_ADDR = ''239.10.11.12'', CMD_PORT = 6543, MAX_SPACE = 100,
                      SHRD_FLDR = ''shared'', TIMEOUT = 5\<rparr>"
      and env = "\<lparr>tcp_socket = Inr 40000, select_result = 1, accept_result = 4,
                  open_result = 5, read_results = (\<lambda>k. 0), write_results = (\<lambda>k. 0),
                  close_result = 0, unlink_result = 0\<rparr>"]
  by (simp add: filename_def)

section \<open>Remove of an unknown name\<close>

text \<open>
  Claim C9. A remove request with a non-empty name that is not in the catalog sends
  nothing and leaves the state and the shared folder as they were; a remove request
  with a non-empty name never sends anything, whether it removes a file or not.
\<close>

theorem remove_unknown_silent:
  "(data request \<noteq> [] \<and> data request \<notin> set (map filename (files state)) \<longrightarrow>
      remove state fs client request = Returned state fs [])
   \<and> (data request \<noteq> [] \<longrightarrow> acts_of (remove state fs client request) = [])"
proof (intro conjI impI)
  assume a: "data request \<noteq> [] \<and> data request \<notin> set (map filename (files state))"
  then have "find_file (data request) (files state) = None"
    using find_file_unknown by blast
  with a show "remove state fs client request = Returned state fs []"
    by (simp add: remove_def check_data_not_empty_def)
next
  assume "data request \<noteq> []"
  then show "acts_of (remove state fs client request) = []"
    by (simp add: remove_def check_data_not_empty_def Let_def split: option.split)
qed

theorem remove_unknown_silent_witness:
  "remove \<lparr>available_space = 10, negative_space = 0, socket = 3, files = [''shared/a''],
            open_files = {}\<rparr>
     [''shared/a'' \<mapsto> 90] (Sockaddr_in 1 2) \<lparr>cmd = ''DEL'', cmd_seq = 7, data = ''zzz''\<rparr>
   = Returned \<lparr>available_space = 10, negative_space = 0, socket = 3, files = [''shared/a''],
      open_files = {}\<rparr> [''shared/a'' \<mapsto> 90] []"
  using remove_unknown_silent [where request = "\<lparr>cmd = ''DEL'', cmd_seq = 7, data = ''zzz''\<rparr>"
      and state = "\<lparr>available_space = 10, negative_space = 0, socket = 3,
                    files = [''shared/a''], open_files = {}\<rparr>"
      and fs = "[''shared/a'' \<mapsto> 90]" and client = "Sockaddr_in 1 2"]
  by (simp add: filename_def)

section \<open>Command names\<close>

lemma command_equal_padding:
  "command_equal request command \<longleftrightarrow>
     (\<forall>i. length command \<le> i \<and> i < length (cmd request) \<longrightarrow> cmd request ! i = CHR 0x00)
     \<and> take (length command) (cmd request) = command"
proof -
  have "list_ex (\<lambda>c. c \<noteq> CHR 0x00) (drop n xs)
          \<longleftrightarrow> (\<exists>i. n \<le> i \<and> i < length xs \<and> xs ! i \<noteq> CHR 0x00)" for n and xs :: string
  proof
    assume "list_ex (\<lambda>c. c \<noteq> CHR 0x00) (drop n xs)"
    then obtain j where "j < length (drop n xs)" "drop n xs ! j \<noteq> CHR 0x00"
      by (auto simp: list_ex_iff in_set_conv_nth)
    then have "n \<le> n + j \<and> n + j < length xs \<and> xs ! (n + j) \<noteq> CHR 0x00"
      by auto
    then show "\<exists>i. n \<le> i \<and> i < length xs \<and> xs ! i \<noteq> CHR 0x00" by blast
  next
    assume "\<exists>i. n \<le> i \<and> i < length xs \<and> xs ! i \<noteq> CHR 0x00"
    then obtain i where i: "n \<le> i" "i < length xs" "xs ! i \<noteq> CHR 0x00" by blast
    then have "i - n < length (drop n xs)" "drop n xs ! (i - n) \<noteq> CHR 0x00"
      by auto
    then show "list_ex (\<lambda>c. c \<noteq> CHR 0x00) (drop n xs)"
      unfolding list_ex_iff using nth_mem by blast
  qed
  then show ?thesis unfolding command_equal_def by auto
qed

lemma command_equal_extended:
  assumes "c \<noteq> CHR 0x00" "cmd request = name @ c # rest"
    "name \<in> {''HELLO'', ''DEL'', ''LIST'', ''GET'', ''ADD''}"
  shows "\<not> command_equal request ''HELLO''" "\<not> command_equal request ''DEL''"
    "\<not> command_equal request ''LIST''" "\<not> command_equal request ''GET''"
    "\<not> command_equal request ''ADD''"
  using assms unfolding command_equal_def by auto

text \<open>
  Claim C10. \<^verbatim>\<open>command_equal\<close> holds only if every byte of the command field behind
  the name is NUL and the field starts with the name; a datagram whose command field is
  one of the five names followed by a byte that is not NUL (such as \<^verbatim>\<open>HELLOX\<close>) gets
  the "Invalid cmd." error message and reaches no handler.
\<close>

theorem command_field_padding:
  "(command_equal request command \<longrightarrow>
      (\<forall>i. length command \<le> i \<and> i < length (cmd request) \<longrightarrow> cmd request ! i = CHR 0x00)
      \<and> take (length command) (cmd request) = command)
   \<and> (name \<in> {''HELLO'', ''DEL'', ''LIST'', ''GET'', ''ADD''} \<and> c \<noteq> CHR 0x00
       \<and> cmd (as_simpl dg) = name @ c # rest
       \<and> 0 \<le> rcv_len dg \<and> \<not> message_too_short (min_simpl_len lim) (rcv_len dg) \<longrightarrow>
      read_requests lim fk env options state fs client dg
        = Returned state fs [Error_message client ''Invalid cmd.''])"
proof -
  have one: "(\<forall>i. length command \<le> i \<and> i < length (cmd request) \<longrightarrow> cmd request ! i = CHR 0x00)
      \<and> take (length command) (cmd request) = command" if "command_equal request command"
    using that by (simp add: command_equal_padding)
  have two: "read_requests lim fk env options state fs client dg
        = Returned state fs [Error_message client ''Invalid cmd.'']"
    if a: "name \<in> {''HELLO'', ''DEL'', ''LIST'', ''GET'', ''ADD''} \<and> c \<noteq> CHR 0x00
       \<and> cmd (as_simpl dg) = name @ c # rest
       \<and> 0 \<le> rcv_len dg \<and> \<not> message_too_short (min_simpl_len lim) (rcv_len dg)"
  proof -
    from a have "\<not> command_equal (as_simpl dg) ''HELLO''" "\<not> command_equal (as_simpl dg) ''DEL''"
      "\<not> command_equal (as_simpl dg) ''LIST''" "\<not> command_equal (as_simpl dg) ''GET''"
      "\<not> command_equal (as_simpl dg) ''ADD''"
      using command_equal_extended [of c "as_simpl dg" name rest] by blast+
    with a show ?thesis
      unfolding read_requests_def Let_def by simp
  qed
  from one two show ?thesis by blast
qed

theorem command_field_padding_witness:
  "read_requests \<lparr>BSIZE = 512, MAX_SIMPL_DATA_LEN = 100, min_simpl_len = 18, min_cmplx_len = 26\<rparr>
     Fork_parent
     \<lparr>tcp_socket = Inr 40000, select_result = 1, accept_result = 4, open_result = 5,
      read_results = (\<lambda>k. 0), write_results = (\<lambda>k. 0), close_result = 0, unlink_result = 0\<rparr>
     \<lparr>MCAST_ADDR = ''239.10.11.12'', CMD_PORT = 6543, MAX_SPACE = 100,
      SHRD_FLDR = ''shared'', TIMEOUT = 5\<rparr>
     \<lparr>available_space = 10, negative_space = 0, socket = 3, files = [''shared/a''],
      open_files = {}\<rparr>
     [''shared/a'' \<mapsto> 90] (Sockaddr_in 1 2)
     \<lparr>rcv_len = 18,
      as_simpl = \<lparr>cmd = ''HELLOX'' @ [CHR 0x00, CHR 0x00, CHR 0x00, CHR 0x00], cmd_seq = 7,
                  data = []\<rparr>,
      as_cmplx = \<lparr>cmd = ''HELLOX'' @ [CHR 0x00, CHR 0x00, CHR 0x00, CHR 0x00], cmd_seq = 7,
                  data = [], param = 0\<rparr>\<rparr>
   = Returned \<lparr>available_space = 10, negative_space = 0, socket = 3, files = [''shared/a''],
      open_files = {}\<rparr> [''shared/a'' \<mapsto> 90]
      [Error_message (Sockaddr_in 1 2) ''Invalid cmd.'']"
  using command_field_padding [where name = "''HELLO''" and c = "CHR ''X''"
      and rest = "[CHR 0x00, CHR 0x00, CHR 0x00, CHR 0x00]"
      and lim = "\<lparr>BSIZE = 512, MAX_SIMPL_DATA_LEN = 100, min_simpl_len = 18, min_cmplx_len = 26\<rparr>"
      and fk = Fork_parent
      and env = "\<lparr>tcp_socket = Inr 40000, select_result = 1, accept_result = 4,
                  open_result = 5, read_results = (\<lambda>k. 0), write_results = (\<lambda>k. 0),
                  close_result = 0, unlink_result = 0\<rparr>"
      and options = "\<lparr>MCAST_ADDR = ''239.10.11.12'', CMD_PORT = 6543, MAX_SPACE = 100,
                      SHRD_FLDR = ''shared'', TIMEOUT = 5\<rparr>"
      and state = "\<lparr>available_space = 10, negative_space = 0, socket = 3,
                    files = [''shared/a''], open_files = {}\<rparr>"
      and fs = "[''shared/a'' \<mapsto> 90]" and client = "Sockaddr_in 1 2"
      and dg = "\<lparr>rcv_len = 18,
      as_simpl = \<lparr>cmd = ''HELLOX'' @ [CHR 0x00, CHR 0x00, CHR 0x00, CHR 0x00], cmd_seq = 7,
                  data = []\<rparr>,
      as_cmplx = \<lparr>cmd = ''HELLOX'' @ [CHR 0x00, CHR 0x00, CHR 0x00, CHR 0x00], cmd_seq = 7,
                  data = [], param = 0\<rparr>\<rparr>", THEN conjunct2]
  by (simp add: message_too_short_def)

text \<open>
  For comparison, the name \<^verbatim>\<open>HELLO\<close> padded with NUL bytes reaches the discover handler.
\<close>

lemma discover_routed:
  "read_requests \<lparr>BSIZE = 512, MAX_SIMPL_DATA_LEN = 100, min_simpl_len = 18, min_cmplx_len = 26\<rparr>
     Fork_parent env
     \<lparr>MCAST_ADDR = ''239.10.11.12'', CMD_PORT = 6543, MAX_SPACE = 100,
      SHRD_FLDR = ''shared'', TIMEOUT = 5\<rparr>
     \<lparr>available_space = 10, negative_space = 0, socket = 3, files = [''shared/a''],
      open_files = {}\<rparr>
     [''shared/a'' \<mapsto> 90] (Sockaddr_in 1 2)
     \<lparr>rcv_len = 18,
      as_simpl = \<lparr>cmd = ''HELLO'' @ [CHR 0x00, CHR 0x00, CHR 0x00, CHR 0x00, CHR 0x00],
                  cmd_seq = 7, data = []\<rparr>,
      as_cmplx = \<lparr>cmd = ''HELLO'' @ [CHR 0x00, CHR 0x00, CHR 0x00, CHR 0x00, CHR 0x00],
                  cmd_seq = 7, data = [], param = 0\<rparr>\<rparr>
   = Returned \<lparr>available_space = 10, negative_space = 0, socket = 3, files = [''shared/a''],
      open_files = {}\<rparr> [''shared/a'' \<mapsto> 90]
      [Send_complex (Sockaddr_in 1 2) ''GOOD_DAY'' ''239.10.11.12'' 7 10]"
  by (simp add: read_requests_def message_too_short_def command_equal_def discover_def
        check_data_empty_def)

end
